theory Spec2Isabelle
  imports Complex_Main "HOL-Library.Multiset"
begin

section \<open>Values, errors and numpy indexing\<close>

text \<open>
  Exceptions of \<^verbatim>\<open>mikeio/dfsu.py\<close> are values: every \<^verbatim>\<open>raise\<close> of the
  source and every failing library call is an \<open>Inl\<close> branch of the model.
  \<open>PlainException\<close> is the bare \<^verbatim>\<open>raise Exception\<close> of \<^verbatim>\<open>get_node_coords\<close>,
  \<open>DfsError\<close> an exception thrown by the storage provider, \<open>NaNValue\<close> marks the
  places where numpy would produce a not-a-number from a division by zero (the
  geometry is modelled over the reals, which have no such value).
\<close>

datatype exn = IndexError | ValueError | UnboundLocalError | IOError | PlainException
  | DfsError | ItemNotFound | FileNotFound | NaNValue

text \<open>
  A sample of a data array: a float that is not-a-number, a number or an infinity. The
  numbers are reals; what narrowing to single precision makes of a number is a
  parameter of the model (see \<open>to_dotnet_float_array\<close>).
\<close>

datatype fl = NaN | Num real | PosInf | NegInf

text \<open>\<^verbatim>\<open>np.isnan(d)\<close> and \<^verbatim>\<open>d == deleteValue\<close>: a NaN equals nothing, also not itself.\<close>

fun isnan :: "fl \<Rightarrow> bool" where
  "isnan NaN = True"
| "isnan v = False"

fun fl_eq :: "fl \<Rightarrow> fl \<Rightarrow> bool" where
  "fl_eq NaN b = False"
| "fl_eq a NaN = False"
| "fl_eq a b = (a = b)"

text \<open>
  Indexing a one-dimensional numpy array (or a Python list) with an integer: negative
  indices count from the end, anything out of range raises IndexError.
\<close>

definition np_index :: "'a list \<Rightarrow> int \<Rightarrow> exn + 'a" where
  "np_index xs i =
     (if 0 \<le> i \<and> i < int (length xs) then Inr (xs ! nat i)
      else if i < 0 \<and> - int (length xs) \<le> i then Inr (xs ! nat (int (length xs) + i))
      else Inl IndexError)"

text \<open>\<^verbatim>\<open>xs[i] = v\<close> on a numpy array, for a loop index \<open>i \<ge> 0\<close>.\<close>

definition np_store :: "'a list \<Rightarrow> nat \<Rightarrow> 'a \<Rightarrow> exn + 'a list" where
  "np_store xs i v = (if i < length xs then Inr (xs[i := v]) else Inl IndexError)"

section \<open>The container handle\<close>

datatype DfsuFileType = Dfsu2D | DfsuVerticalColumn | DfsuVerticalProfileSigma
  | DfsuVerticalProfileSigmaZ | Dfsu3DSigma | Dfsu3DSigmaZ

datatype eumItem = ItemUndefined | ItemType nat
datatype eumUnit = UnitUndefined | UnitMeter | UnitCode nat

text \<open>
  Modelled from the spec: \<^verbatim>\<open>ItemInfo\<close> of \<^verbatim>\<open>mikeio/eum.py\<close>, which is not among the
  sources: an item descriptor is a name, a physical quantity type and a unit, the last
  two undefined when only a name is given.
\<close>

record ItemInfo =
  name :: string
  itemtype :: eumItem
  unit :: eumUnit

definition ItemInfo_of_name :: "string \<Rightarrow> ItemInfo" where
  "ItemInfo_of_name nm = \<lparr>name = nm, itemtype = ItemUndefined, unit = UnitUndefined\<rparr>"

text \<open>
  Modelled from the spec: the handle of the external storage provider
  (\<^verbatim>\<open>DHI.Generic.MikeZero.DFS\<close>), with the attributes the source reads. \<open>blocks\<close> holds
  the stored item-time-step arrays in file order (time step major, item minor),
  \<open>position\<close> is the cursor of the sequential writer, \<open>is_open\<close> tells whether the
  handle has been closed.
\<close>

record DfsuFile =
  FileType :: DfsuFileType
  Items :: "ItemInfo list"
  DeleteValueFloat :: fl
  StartDateTime :: real
  TimeStepSeconds :: real
  X :: "real list"
  Y :: "real list"
  Z :: "real list"
  Code :: "int list"
  ElementTable :: "int list list"
  WKTString :: string
  blocks :: "fl list list"
  position :: nat
  is_open :: bool

definition NumberOfElements :: "DfsuFile \<Rightarrow> nat" where
  "NumberOfElements dfs = length (ElementTable dfs)"

section \<open>Node coordinates\<close>

text \<open>
  \<^verbatim>\<open>np.column_stack([xn, yn, zn])\<close> raises ValueError unless the three columns have the
  same length.
\<close>

definition column_stack3 :: "real list \<Rightarrow> real list \<Rightarrow> real list \<Rightarrow> exn + (real \<times> real \<times> real) list" where
  "column_stack3 xn yn zn =
     (if length yn = length xn \<and> length zn = length xn
      then Inr (zip xn (zip yn zn)) else Inl ValueError)"

text \<open>
  \<^verbatim>\<open>nc[c == code]\<close>: selection of rows by a boolean mask, an IndexError when the mask
  is not as long as the array.
\<close>

definition mask_rows :: "'a list \<Rightarrow> bool list \<Rightarrow> exn + 'a list" where
  "mask_rows nc m =
     (if length m = length nc then Inr (map fst (filter snd (zip nc m))) else Inl IndexError)"

text \<open>
  \<^verbatim>\<open>Dfsu.get_node_coords\<close>. The message printed before the bare exception is raised
  goes to standard output and is not part of the result.
\<close>

definition get_node_coords :: "DfsuFile \<Rightarrow> int option \<Rightarrow> exn + (real \<times> real \<times> real) list" where
  "get_node_coords dfs code =
     (case column_stack3 (X dfs) (Y dfs) (Z dfs) of
        Inl e \<Rightarrow> Inl e
      | Inr nc \<Rightarrow>
          (case code of
             Some cd \<Rightarrow>
               (let c = Code dfs; valid_codes = set c in
                if cd \<notin> valid_codes then Inl PlainException
                else mask_rows nc (map (\<lambda>k. k = cd) c))
           | None \<Rightarrow> Inr nc))"

text \<open>
  The spec's words for the filter: the subsequence, in original node order, of the
  nodes whose code equals the filter code.
\<close>

definition nodes_with_code :: "(real \<times> real \<times> real) list \<Rightarrow> int list \<Rightarrow> int \<Rightarrow> (real \<times> real \<times> real) list" where
  "nodes_with_code nodes codes cd = nths nodes {k. k < length codes \<and> codes ! k = cd}"

definition mesh_nodes :: "DfsuFile \<Rightarrow> (real \<times> real \<times> real) list" where
  "mesh_nodes dfs = zip (X dfs) (zip (Y dfs) (Z dfs))"

definition nodes_wf :: "DfsuFile \<Rightarrow> bool" where
  "nodes_wf dfs \<longleftrightarrow> length (Y dfs) = length (X dfs) \<and> length (Z dfs) = length (X dfs)
     \<and> length (Code dfs) = length (X dfs)"


section \<open>Element geometry\<close>

text \<open>
  \<^verbatim>\<open>Dfsu.is_geo\<close>: the projection string is exactly \<^verbatim>\<open>LONG/LAT\<close>.
\<close>

definition is_geo :: "DfsuFile \<Rightarrow> bool" where
  "is_geo dfs \<longleftrightarrow> WKTString dfs = ''LONG/LAT''"

text \<open>
  The inner loop of \<^verbatim>\<open>get_element_area\<close>: for each position \<open>i\<close> of the element's
  node list, \<^verbatim>\<open>nidx = nodes[i] - 1\<close>, \<^verbatim>\<open>xcoords[i] = xn[nidx]\<close>,
  \<^verbatim>\<open>ycoords[i] = yn[nidx]\<close>. The two buffers have four cells and are shared by all
  elements, so they are threaded through as state.
\<close>

fun fill_coords :: "real list \<Rightarrow> real list \<Rightarrow> int list \<Rightarrow> nat \<Rightarrow> real list \<times> real list
    \<Rightarrow> exn + (real list \<times> real list)" where
  "fill_coords xn yn [] i (xcoords, ycoords) = Inr (xcoords, ycoords)"
| "fill_coords xn yn (nd # nodes) i (xcoords, ycoords) =
     (let nidx = nd - 1 in
      case np_index xn nidx of Inl e \<Rightarrow> Inl e | Inr x \<Rightarrow>
      (case np_store xcoords i x of Inl e \<Rightarrow> Inl e | Inr xcoords' \<Rightarrow>
      (case np_index yn nidx of Inl e \<Rightarrow> Inl e | Inr y \<Rightarrow>
      (case np_store ycoords i y of Inl e \<Rightarrow> Inl e | Inr ycoords' \<Rightarrow>
         fill_coords xn yn nodes (Suc i) (xcoords', ycoords')))))"

definition earth_radius :: real where
  "earth_radius = 6366707.0"

definition deg_to_rad :: real where
  "deg_to_rad = pi / 180.0"

text \<open>
  The body of the element loop after the buffers are filled: edge vectors from the
  first corner, the conversion to metres on a geographic mesh, and the signed area.
  \<open>n\<close> is \<^verbatim>\<open>nodes.Length\<close>. The source computes \<^verbatim>\<open>adx\<close> and \<^verbatim>\<open>ady\<close> for a
  quadrilateral only; here they are bound always and used for a quadrilateral only.
  On a geographic mesh an element without nodes divides zero by zero.
\<close>

definition signed_area :: "bool \<Rightarrow> nat \<Rightarrow> real list \<Rightarrow> real list \<Rightarrow> exn + real" where
  "signed_area geo n xcoords ycoords =
     (let abx = xcoords ! 1 - xcoords ! 0;
          aby = ycoords ! 1 - ycoords ! 0;
          acx = xcoords ! 2 - xcoords ! 0;
          acy = ycoords ! 2 - ycoords ! 0;
          isquad = (n > 3);
          adx = xcoords ! 3 - xcoords ! 0;
          ady = ycoords ! 3 - ycoords ! 0
      in if geo then
           (if n = 0 then Inl NaNValue
            else
              let earth_radius_deg_to_rad = earth_radius * deg_to_rad;
                  Ye = sum_list (take n ycoords) / real n;
                  cosYe = cos (Ye * deg_to_rad);
                  abx = earth_radius_deg_to_rad * abx * cosYe;
                  aby = earth_radius_deg_to_rad * aby;
                  acx = earth_radius_deg_to_rad * acx * cosYe;
                  acy = earth_radius_deg_to_rad * acy;
                  adx = earth_radius_deg_to_rad * adx * cosYe;
                  ady = earth_radius_deg_to_rad * ady;
                  area = 0.5 * (abx * acy - aby * acx)
              in Inr (if isquad then area + 0.5 * (acx * ady - acy * adx) else area))
         else
           (let area = 0.5 * (abx * acy - aby * acx)
            in Inr (if isquad then area + 0.5 * (acx * ady - acy * adx) else area)))"

fun area_loop :: "bool \<Rightarrow> real list \<Rightarrow> real list \<Rightarrow> int list list \<Rightarrow> real list \<times> real list
    \<Rightarrow> exn + real list" where
  "area_loop geo xn yn [] bufs = Inr []"
| "area_loop geo xn yn (nodes # rest) bufs =
     (case fill_coords xn yn nodes 0 bufs of Inl e \<Rightarrow> Inl e | Inr (xcoords, ycoords) \<Rightarrow>
      (case signed_area geo (length nodes) xcoords ycoords of Inl e \<Rightarrow> Inl e | Inr a \<Rightarrow>
      (case area_loop geo xn yn rest (xcoords, ycoords) of Inl e \<Rightarrow> Inl e
       | Inr area \<Rightarrow> Inr (a # area))))"

text \<open>
  \<^verbatim>\<open>Dfsu.get_element_area\<close>. \<^verbatim>\<open>np.empty(4)\<close> leaves the buffers uninitialised:
  \<open>junk\<close> gives their initial contents (cells 0 to 3 for \<^verbatim>\<open>xcoords\<close>, 4 to 7 for
  \<^verbatim>\<open>ycoords\<close>).
\<close>

definition get_element_area :: "(nat \<Rightarrow> real) \<Rightarrow> DfsuFile \<Rightarrow> exn + real list" where
  "get_element_area junk dfs =
     (let xn = X dfs; yn = Y dfs;
          xcoords = map junk [0..<4]; ycoords = map junk [4..<8]
      in case area_loop (is_geo dfs) xn yn (ElementTable dfs) (xcoords, ycoords) of
           Inl e \<Rightarrow> Inl e
         | Inr area \<Rightarrow> Inr (map abs area))"

text \<open>
  The inner loop of \<^verbatim>\<open>get_element_coords\<close>: the coordinates of the element's nodes,
  in new buffers of the element's own length.
\<close>

fun gather_coords :: "real list \<Rightarrow> real list \<Rightarrow> real list \<Rightarrow> int list
    \<Rightarrow> exn + (real list \<times> real list \<times> real list)" where
  "gather_coords xn yn zn [] = Inr ([], [], [])"
| "gather_coords xn yn zn (nd # nodes) =
     (let nidx = nd - 1 in
      case np_index xn nidx of Inl e \<Rightarrow> Inl e | Inr x \<Rightarrow>
      (case np_index yn nidx of Inl e \<Rightarrow> Inl e | Inr y \<Rightarrow>
      (case np_index zn nidx of Inl e \<Rightarrow> Inl e | Inr z \<Rightarrow>
      (case gather_coords xn yn zn nodes of Inl e \<Rightarrow> Inl e
       | Inr (xs, ys, zs) \<Rightarrow> Inr (x # xs, y # ys, z # zs)))))"

text \<open>\<^verbatim>\<open>a.mean()\<close>: of an empty array it is 0/0.\<close>

definition mean :: "real list \<Rightarrow> exn + real" where
  "mean xs = (if xs = [] then Inl NaNValue else Inr (sum_list xs / real (length xs)))"

fun coords_loop :: "real list \<Rightarrow> real list \<Rightarrow> real list \<Rightarrow> int list list
    \<Rightarrow> exn + (real \<times> real \<times> real) list" where
  "coords_loop xn yn zn [] = Inr []"
| "coords_loop xn yn zn (nodes # rest) =
     (case gather_coords xn yn zn nodes of Inl e \<Rightarrow> Inl e | Inr (xcoords, ycoords, zcoords) \<Rightarrow>
      (case mean xcoords of Inl e \<Rightarrow> Inl e | Inr mx \<Rightarrow>
      (case mean ycoords of Inl e \<Rightarrow> Inl e | Inr my \<Rightarrow>
      (case mean zcoords of Inl e \<Rightarrow> Inl e | Inr mz \<Rightarrow>
      (case coords_loop xn yn zn rest of Inl e \<Rightarrow> Inl e
       | Inr ec \<Rightarrow> Inr ((mx, my, mz) # ec))))))"

definition get_element_coords :: "DfsuFile \<Rightarrow> exn + (real \<times> real \<times> real) list" where
  "get_element_coords dfs = coords_loop (X dfs) (Y dfs) (Z dfs) (ElementTable dfs)"

text \<open>
  \<^verbatim>\<open>Dfsu.find_closest_element_index\<close>. \<^verbatim>\<open>d.argsort()\<close> is numpy's: it is the
  parameter \<open>argsort\<close>, and what numpy promises of it is \<open>is_argsort\<close> below.
  Taking element 0 of the sorted indices raises IndexError when there is no element.
\<close>

definition sq_dist2 :: "real \<Rightarrow> real \<Rightarrow> real \<times> real \<times> real \<Rightarrow> real" where
  "sq_dist2 x y c = (case c of (cx, cy, cz) \<Rightarrow> (cx - x)\<^sup>2 + (cy - y)\<^sup>2)"

definition sq_dist3 :: "real \<Rightarrow> real \<Rightarrow> real \<Rightarrow> real \<times> real \<times> real \<Rightarrow> real" where
  "sq_dist3 x y z c = (case c of (cx, cy, cz) \<Rightarrow> (cx - x)\<^sup>2 + (cy - y)\<^sup>2 + (cz - z)\<^sup>2)"

definition find_closest_element_index ::
    "(real list \<Rightarrow> nat list) \<Rightarrow> DfsuFile \<Rightarrow> real \<Rightarrow> real \<Rightarrow> real option \<Rightarrow> exn + nat" where
  "find_closest_element_index argsort dfs x y z =
     (case get_element_coords dfs of Inl e \<Rightarrow> Inl e | Inr ec \<Rightarrow>
        (case z of
           None \<Rightarrow> (let d = map (sq_dist2 x y) ec in np_index (argsort d) 0)
         | Some z' \<Rightarrow> (let d = map (sq_dist3 x y z') ec in np_index (argsort d) 0)))"

text \<open>
  What numpy documents of \<^verbatim>\<open>argsort\<close> with its default (not stable) sorting kind:
  the result lists every index once, and the values read in that order ascend.
\<close>

definition is_argsort :: "(real list \<Rightarrow> nat list) \<Rightarrow> bool" where
  "is_argsort argsort \<longleftrightarrow>
     (\<forall>d. mset (argsort d) = mset [0..<length d] \<and> sorted (map (\<lambda>i. d ! i) (argsort d)))"


section \<open>The element area in the spec's words\<close>

text \<open>
  The node of a 1-based node number, and the well-formed meshes of the spec's data
  model: every element is a triangle or a quadrilateral and every node number of an
  element resolves to a node.
\<close>

definition node_xy :: "DfsuFile \<Rightarrow> int \<Rightarrow> real \<times> real" where
  "node_xy dfs nd = (X dfs ! nat (nd - 1), Y dfs ! nat (nd - 1))"

definition element_wf :: "nat \<Rightarrow> int list \<Rightarrow> bool" where
  "element_wf n e \<longleftrightarrow> (length e = 3 \<or> length e = 4) \<and> (\<forall>nd \<in> set e. 1 \<le> nd \<and> nd \<le> int n)"

definition elements_wf :: "DfsuFile \<Rightarrow> bool" where
  "elements_wf dfs \<longleftrightarrow> length (Y dfs) = length (X dfs)
     \<and> (\<forall>e \<in> set (ElementTable dfs). (length e = 3 \<or> length e = 4)
           \<and> (\<forall>nd \<in> set e. 1 \<le> nd \<and> nd \<le> int (length (X dfs))))"

text \<open>
  The area as the spec words it. On a geographic mesh the x-component of every edge
  vector is scaled by \<^verbatim>\<open>6366707.0 * (pi/180) * cos\<close> of the mean node latitude in
  radians and the y-component by \<^verbatim>\<open>6366707.0 * (pi/180)\<close>. A triangle has the signed
  area \<^verbatim>\<open>1/2 (abx * acy - aby * acx)\<close> of the edge vectors from its first node, a
  quadrilateral that plus \<^verbatim>\<open>1/2 (acx * ady - acy * adx)\<close>; the result is the absolute
  value.
\<close>

definition x_scale :: "bool \<Rightarrow> (real \<times> real) list \<Rightarrow> real" where
  "x_scale geo pts =
     (if geo then 6366707.0 * (pi / 180) * cos ((sum_list (map snd pts) / real (length pts)) * (pi / 180))
      else 1)"

definition y_scale :: "bool \<Rightarrow> real" where
  "y_scale geo = (if geo then 6366707.0 * (pi / 180) else 1)"

definition edge :: "real \<Rightarrow> real \<Rightarrow> real \<times> real \<Rightarrow> real \<times> real \<Rightarrow> real \<times> real" where
  "edge sx sy a p = (sx * (fst p - fst a), sy * (snd p - snd a))"

definition triangle_term :: "real \<times> real \<Rightarrow> real \<times> real \<Rightarrow> real" where
  "triangle_term u v = 1 / 2 * (fst u * snd v - snd u * fst v)"

fun spec_element_area :: "bool \<Rightarrow> (real \<times> real) list \<Rightarrow> real" where
  "spec_element_area geo [a, b, c] =
     (let sx = x_scale geo [a, b, c]; sy = y_scale geo;
          ab = edge sx sy a b; ac = edge sx sy a c
      in \<bar>triangle_term ab ac\<bar>)"
| "spec_element_area geo [a, b, c, d] =
     (let sx = x_scale geo [a, b, c, d]; sy = y_scale geo;
          ab = edge sx sy a b; ac = edge sx sy a c; ad = edge sx sy a d
      in \<bar>triangle_term ab ac + triangle_term ac ad\<bar>)"
| "spec_element_area geo pts = 0"

section \<open>The nearest element in the spec's words\<close>

text \<open>
  The centroid of an element is the unweighted mean of the coordinates of its nodes;
  the squared distance is taken in the plane when no \<open>z\<close> is given.
\<close>

definition centroid :: "DfsuFile \<Rightarrow> int list \<Rightarrow> real \<times> real \<times> real" where
  "centroid dfs e =
     (sum_list (map (\<lambda>nd. X dfs ! nat (nd - 1)) e) / real (length e),
      sum_list (map (\<lambda>nd. Y dfs ! nat (nd - 1)) e) / real (length e),
      sum_list (map (\<lambda>nd. Z dfs ! nat (nd - 1)) e) / real (length e))"

definition sq_dist :: "real \<Rightarrow> real \<Rightarrow> real option \<Rightarrow> real \<times> real \<times> real \<Rightarrow> real" where
  "sq_dist x y z c = (case z of None \<Rightarrow> sq_dist2 x y c | Some z' \<Rightarrow> sq_dist3 x y z' c)"

definition mesh_wf :: "DfsuFile \<Rightarrow> bool" where
  "mesh_wf dfs \<longleftrightarrow> elements_wf dfs \<and> length (Z dfs) = length (X dfs)"

text \<open>
  Two sorting functions that meet \<open>is_argsort\<close>: one keeps tied indices in ascending
  order, the other in descending order.
\<close>

definition argsort_stable :: "real list \<Rightarrow> nat list" where
  "argsort_stable d = sort_key (\<lambda>i. d ! i) [0..<length d]"

definition argsort_rev :: "real list \<Rightarrow> nat list" where
  "argsort_rev d = sort_key (\<lambda>i. d ! i) (rev [0..<length d])"

section \<open>The storage provider\<close>

text \<open>
  Modelled from the spec: the operations of the external storage provider on a
  handle. The number of time steps is the number of stored blocks per item;
  \<^verbatim>\<open>ReadItemTimeStep\<close> takes a 1-based item number and a 0-based time step and throws
  outside the stored range; \<^verbatim>\<open>WriteItemTimeStepNext\<close> stores at the cursor, appending
  when the cursor is at the end, and advances the cursor; \<^verbatim>\<open>Close\<close> releases the
  handle.
\<close>

record ItemData =
  Time :: real
  Data :: "fl list"

definition NumberOfTimeSteps :: "DfsuFile \<Rightarrow> nat" where
  "NumberOfTimeSteps dfs = length (blocks dfs) div length (Items dfs)"

definition ReadItemTimeStep :: "DfsuFile \<Rightarrow> int \<Rightarrow> int \<Rightarrow> exn + ItemData" where
  "ReadItemTimeStep dfs itemNumber timestep =
     (if 1 \<le> itemNumber \<and> itemNumber \<le> int (length (Items dfs))
         \<and> 0 \<le> timestep \<and> timestep < int (NumberOfTimeSteps dfs)
      then Inr \<lparr>Time = real_of_int timestep * TimeStepSeconds dfs,
                Data = blocks dfs ! (nat timestep * length (Items dfs) + nat (itemNumber - 1))\<rparr>
      else Inl DfsError)"

definition WriteItemTimeStepNext :: "DfsuFile \<Rightarrow> real \<Rightarrow> fl list \<Rightarrow> DfsuFile" where
  "WriteItemTimeStepNext dfs t darray =
     dfs\<lparr>blocks := (if position dfs < length (blocks dfs)
                     then (blocks dfs)[position dfs := darray]
                     else blocks dfs @ [darray]),
         position := Suc (position dfs)\<rparr>"

definition Close :: "DfsuFile \<Rightarrow> DfsuFile" where
  "Close dfs = dfs\<lparr>is_open := False\<rparr>"

text \<open>
  Modelled from the spec: the helpers of \<^verbatim>\<open>mikeio/dotnet.py\<close>, \<^verbatim>\<open>mikeio/dutil.py\<close>
  and \<^verbatim>\<open>mikeio/helpers.py\<close>, which are not among the sources.
  \<^verbatim>\<open>to_dotnet_float_array\<close> makes an array of single-precision floats: every number is
  narrowed, which may change it or make it an infinity, and what a number is narrowed
  to is the parameter \<open>nw\<close>; NaN and the infinities stay. \<^verbatim>\<open>to_numpy\<close> widens the
  stored singles again, which changes no value. \<^verbatim>\<open>safe_length\<close> is the length;
  \<^verbatim>\<open>find_item\<close> resolves each name to the number of the first item of that name and
  fails with ItemNotFound when there is none; \<^verbatim>\<open>get_item_info\<close> gives the descriptor
  of each selected item.
\<close>

definition to_numpy :: "fl list \<Rightarrow> fl list" where
  "to_numpy src = src"

definition to_single :: "(real \<Rightarrow> fl) \<Rightarrow> fl \<Rightarrow> fl" where
  "to_single nw v = (case v of Num x \<Rightarrow> nw x | _ \<Rightarrow> v)"

definition to_dotnet_float_array :: "(real \<Rightarrow> fl) \<Rightarrow> fl list \<Rightarrow> fl list" where
  "to_dotnet_float_array nw d = map (to_single nw) d"

text \<open>
  The same helper on the node heights of a mesh, which are reals in this model: a
  height is narrowed to a number, and a height that narrows to no number is kept as
  it is.
\<close>

definition to_dotnet_float_array_real :: "(real \<Rightarrow> fl) \<Rightarrow> real list \<Rightarrow> real list" where
  "to_dotnet_float_array_real nw zs = map (\<lambda>z. case nw z of Num y \<Rightarrow> y | _ \<Rightarrow> z) zs"

definition safe_length :: "'a list \<Rightarrow> int" where
  "safe_length xs = int (length xs)"

fun find_index_of :: "string \<Rightarrow> ItemInfo list \<Rightarrow> nat \<Rightarrow> nat option" where
  "find_index_of nm [] k = None"
| "find_index_of nm (it # its) k = (if name it = nm then Some k else find_index_of nm its (Suc k))"

fun find_item :: "DfsuFile \<Rightarrow> string list \<Rightarrow> exn + int list" where
  "find_item dfs [] = Inr []"
| "find_item dfs (nm # names) =
     (case find_index_of nm (Items dfs) 0 of None \<Rightarrow> Inl ItemNotFound | Some k \<Rightarrow>
      (case find_item dfs names of Inl e \<Rightarrow> Inl e | Inr ks \<Rightarrow> Inr (int k # ks)))"

fun get_item_info :: "DfsuFile \<Rightarrow> int list \<Rightarrow> exn + ItemInfo list" where
  "get_item_info dfs [] = Inr []"
| "get_item_info dfs (n # item_numbers) =
     (if 0 \<le> n \<and> n < int (length (Items dfs))
      then (case get_item_info dfs item_numbers of Inl e \<Rightarrow> Inl e
            | Inr infos \<Rightarrow> Inr (Items dfs ! nat n # infos))
      else Inl DfsError)"

section \<open>Reading\<close>

record Dataset =
  ds_data :: "fl list list list"
  ds_time :: "real list"
  ds_items :: "ItemInfo list"

text \<open>
  \<^verbatim>\<open>data_list[item][i, :] = d\<close>: the row is replaced by \<open>d\<close> when the lengths agree, a
  one-element \<open>d\<close> is broadcast, anything else is a ValueError.
\<close>

definition assign_row :: "fl list list \<Rightarrow> nat \<Rightarrow> fl list \<Rightarrow> exn + fl list list" where
  "assign_row arr i d =
     (if i < length arr then
        (let m = length (arr ! i) in
         if length d = m then Inr (arr[i := d])
         else if length d = 1 then Inr (arr[i := replicate m (hd d)])
         else Inl ValueError)
      else Inl IndexError)"

text \<open>\<^verbatim>\<open>d[d == deleteValue] = np.nan\<close>\<close>

definition delete_to_nan :: "fl \<Rightarrow> fl list \<Rightarrow> fl list" where
  "delete_to_nan deleteValue d = map (\<lambda>v. if fl_eq v deleteValue then NaN else v) d"

text \<open>
  The loop over the items at time step \<open>it\<close>, row \<open>i\<close>. The state is the list of data
  arrays and the variable \<^verbatim>\<open>itemdata\<close>, which is unbound before the first read.
\<close>

fun read_items :: "DfsuFile \<Rightarrow> int list \<Rightarrow> int \<Rightarrow> nat \<Rightarrow> int \<Rightarrow> nat list
    \<Rightarrow> fl list list list \<times> ItemData option \<Rightarrow> exn + (fl list list list \<times> ItemData option)" where
  "read_items dfs item_numbers item_offset i it [] st = Inr st"
| "read_items dfs item_numbers item_offset i it (item # rest) (data_list, itemdata) =
     (case np_index item_numbers (int item) of Inl e \<Rightarrow> Inl e | Inr num \<Rightarrow>
      (case ReadItemTimeStep dfs (num + item_offset + 1) it of Inl e \<Rightarrow> Inl e | Inr itemdata' \<Rightarrow>
      (let src = Data itemdata';
           d = to_numpy src;
           d = delete_to_nan (DeleteValueFloat dfs) d
       in case np_index data_list (int item) of Inl e \<Rightarrow> Inl e | Inr arr \<Rightarrow>
          (case assign_row arr i d of Inl e \<Rightarrow> Inl e | Inr arr' \<Rightarrow>
             read_items dfs item_numbers item_offset i it rest
               (data_list[item := arr'], Some itemdata')))))"

text \<open>
  The loop over the selected time steps. After the items, \<^verbatim>\<open>t_seconds[i] = itemdata.Time\<close>
  reads the variable of the inner loop: with no item selected it was never bound.
\<close>

fun read_steps :: "DfsuFile \<Rightarrow> int list \<Rightarrow> int \<Rightarrow> nat \<Rightarrow> int list \<Rightarrow> nat list
    \<Rightarrow> fl list list list \<times> real list \<times> ItemData option \<Rightarrow> exn + (fl list list list \<times> real list)" where
  "read_steps dfs item_numbers item_offset n_items time_steps [] (data_list, t_seconds, itemdata) =
     Inr (data_list, t_seconds)"
| "read_steps dfs item_numbers item_offset n_items time_steps (i # rest) (data_list, t_seconds, itemdata) =
     (case np_index time_steps (int i) of Inl e \<Rightarrow> Inl e | Inr it \<Rightarrow>
      (case read_items dfs item_numbers item_offset i it [0..<n_items] (data_list, itemdata) of
         Inl e \<Rightarrow> Inl e
       | Inr (data_list', itemdata') \<Rightarrow>
          (case itemdata' of None \<Rightarrow> Inl UnboundLocalError | Some idt \<Rightarrow>
           (case np_store t_seconds i (Time idt) of Inl e \<Rightarrow> Inl e | Inr t_seconds' \<Rightarrow>
              read_steps dfs item_numbers item_offset n_items time_steps rest
                (data_list', t_seconds', itemdata')))))"

definition is_3d :: "DfsuFile \<Rightarrow> bool" where
  "is_3d dfs \<longleftrightarrow> FileType dfs = Dfsu3DSigma \<or> FileType dfs = Dfsu3DSigmaZ"

text \<open>
  \<^verbatim>\<open>Dfsu.read\<close> from the allocation of the arrays to the line before the handle is
  closed, with the selections resolved. \<^verbatim>\<open>np.ndarray(shape=...)\<close> leaves the arrays
  uninitialised; every row is assigned before the arrays are returned, and \<open>NaN\<close>
  stands for the initial cells.
\<close>

definition read_selected :: "DfsuFile \<Rightarrow> int list \<Rightarrow> int \<Rightarrow> nat \<Rightarrow> int list \<Rightarrow> exn + Dataset" where
  "read_selected dfs item_numbers item_offset n_items time_steps =
     (let xNum = NumberOfElements dfs;
          deleteValue = DeleteValueFloat dfs;
          data_list = replicate n_items (replicate (length time_steps) (replicate xNum NaN));
          t_seconds = replicate (length time_steps) 0
      in case read_steps dfs item_numbers item_offset n_items time_steps
                [0..<length time_steps] (data_list, t_seconds, None) of
           Inl e \<Rightarrow> Inl e
         | Inr (data_list, t_seconds) \<Rightarrow>
             (let start_time = StartDateTime dfs;
                  time = map (\<lambda>tsec. start_time + tsec) t_seconds
              in case get_item_info dfs item_numbers of Inl e \<Rightarrow> Inl e
                 | Inr items \<Rightarrow> Inr \<lparr>ds_data = data_list, ds_time = time, ds_items = items\<rparr>))"

text \<open>
  \<^verbatim>\<open>Dfsu.read\<close> from the line after the handle is opened: the item offset and count
  of the container's kind, then the selections. Item names take precedence over item
  numbers.
\<close>

definition read_opened :: "DfsuFile \<Rightarrow> int list option \<Rightarrow> string list option \<Rightarrow> int list option
    \<Rightarrow> exn + Dataset" where
  "read_opened dfs item_numbers item_names time_steps =
     (let item_offset = (if is_3d dfs then 1 else 0);
          n_items = (if is_3d dfs then safe_length (Items dfs) - 1 else safe_length (Items dfs));
          nt = NumberOfTimeSteps dfs
      in case (case item_names of None \<Rightarrow> Inr item_numbers
               | Some names \<Rightarrow> (case find_item dfs names of Inl e \<Rightarrow> Inl e | Inr ns \<Rightarrow> Inr (Some ns))) of
           Inl e \<Rightarrow> Inl e
         | Inr item_numbers \<Rightarrow>
             read_selected dfs
               (case item_numbers of None \<Rightarrow> map int [0..<nat n_items] | Some ns \<Rightarrow> ns)
               item_offset
               (case item_numbers of None \<Rightarrow> nat n_items | Some ns \<Rightarrow> length ns)
               (case time_steps of None \<Rightarrow> map int [0..<nt] | Some ts \<Rightarrow> ts))"

section \<open>The world of files\<close>

text \<open>
  Modelled from the spec: the mesh of the external geometry provider, and what an
  operation finds around it: the containers and mesh files by name, the paths that
  cannot be opened for writing, the delete value the provider gives a new container,
  what narrowing to single precision makes of a number, and the lines printed to
  standard output.
\<close>

record MeshFile =
  mesh_X :: "real list"
  mesh_Y :: "real list"
  mesh_Z :: "real list"
  mesh_Code :: "int list"
  mesh_ElementTable :: "int list list"
  ProjectionString :: string

record world =
  dfsu_files :: "string \<rightharpoonup> DfsuFile"
  mesh_files :: "string \<rightharpoonup> MeshFile"
  unwritable :: "string set"
  new_delete_value :: fl
  narrow :: "real \<Rightarrow> fl"
  console :: "string list"

definition DfsuFile_Open :: "world \<Rightarrow> string \<Rightarrow> exn + DfsuFile" where
  "DfsuFile_Open w filename =
     (case dfsu_files w filename of None \<Rightarrow> Inl FileNotFound
      | Some f \<Rightarrow> Inr (f\<lparr>position := 0, is_open := True\<rparr>))"

definition put_file :: "world \<Rightarrow> string \<Rightarrow> DfsuFile \<Rightarrow> world" where
  "put_file w filename dfs = w\<lparr>dfsu_files := (dfsu_files w)(filename \<mapsto> dfs)\<rparr>"

definition ReadMesh :: "world \<Rightarrow> string \<Rightarrow> exn + MeshFile" where
  "ReadMesh w meshfilename =
     (case mesh_files w meshfilename of None \<Rightarrow> Inl FileNotFound | Some m \<Rightarrow> Inr m)"

text \<open>
  \<^verbatim>\<open>Dfsu.read\<close>: the handle is opened, the body runs, the handle is closed and the
  Dataset returned. An exception of the body leaves through no handler, so the world
  keeps the handle as it was then. The copy of the handle kept in \<^verbatim>\<open>self._dfs\<close> is
  the argument of the geometry queries above.
\<close>

definition read :: "world \<Rightarrow> string \<Rightarrow> int list option \<Rightarrow> string list option \<Rightarrow> int list option
    \<Rightarrow> (exn + Dataset) \<times> world" where
  "read w filename item_numbers item_names time_steps =
     (case DfsuFile_Open w filename of Inl e \<Rightarrow> (Inl e, w)
      | Inr dfs \<Rightarrow>
          (case read_opened dfs item_numbers item_names time_steps of
             Inl e \<Rightarrow> (Inl e, put_file w filename dfs)
           | Inr ds \<Rightarrow> (Inr ds, put_file w filename (Close dfs))))"

section \<open>Writing and creating\<close>

text \<open>\<^verbatim>\<open>d[np.isnan(d)] = deletevalue\<close>\<close>

definition nan_to_delete :: "fl \<Rightarrow> fl list \<Rightarrow> fl list" where
  "nan_to_delete deletevalue d = map (\<lambda>v. if isnan v then deletevalue else v) d"

text \<open>
  The loops of \<^verbatim>\<open>write\<close> and \<^verbatim>\<open>create\<close> (the same lines in both). \<^verbatim>\<open>d\<close> is a view
  of row \<open>i\<close> of the caller's array \<^verbatim>\<open>data[item]\<close>, so the assignment through it
  changes that array: the data is state, returned with the handle, also when an
  exception ends the loop. The array that is written is a narrowed copy of the row.
  The arrays of \<open>data\<close> are taken to be distinct objects.
\<close>

fun write_items :: "(real \<Rightarrow> fl) \<Rightarrow> fl \<Rightarrow> nat \<Rightarrow> nat list \<Rightarrow> fl list list list \<Rightarrow> DfsuFile
    \<Rightarrow> exn option \<times> fl list list list \<times> DfsuFile" where
  "write_items nw deletevalue i [] data dfs = (None, data, dfs)"
| "write_items nw deletevalue i (item # rest) data dfs =
     (case np_index data (int item) of Inl e \<Rightarrow> (Some e, data, dfs) | Inr arr \<Rightarrow>
      (case np_index arr (int i) of Inl e \<Rightarrow> (Some e, data, dfs) | Inr d \<Rightarrow>
      (let d = nan_to_delete deletevalue d;
           data = data[item := arr[i := d]];
           darray = to_dotnet_float_array nw d;
           dfs = WriteItemTimeStepNext dfs 0 darray
       in write_items nw deletevalue i rest data dfs)))"

fun write_steps :: "(real \<Rightarrow> fl) \<Rightarrow> fl \<Rightarrow> nat list \<Rightarrow> nat \<Rightarrow> fl list list list \<Rightarrow> DfsuFile
    \<Rightarrow> exn option \<times> fl list list list \<times> DfsuFile" where
  "write_steps nw deletevalue [] n_items data dfs = (None, data, dfs)"
| "write_steps nw deletevalue (i # rest) n_items data dfs =
     (case write_items nw deletevalue i [0..<n_items] data dfs of
        (Some e, data', dfs') \<Rightarrow> (Some e, data', dfs')
      | (None, data', dfs') \<Rightarrow> write_steps nw deletevalue rest n_items data' dfs')"

text \<open>
  One sequential write as the loops do it; the rows the loops hand over for time step
  \<open>i\<close>: row \<open>i\<close> of each of the first \<open>n\<close> arrays, with NaN replaced; and the rows
  stored for them, which are their narrowed copies.
\<close>

definition write_next :: "(real \<Rightarrow> fl) \<Rightarrow> DfsuFile \<Rightarrow> fl list \<Rightarrow> DfsuFile" where
  "write_next nw dfs r = WriteItemTimeStepNext dfs 0 (to_dotnet_float_array nw r)"

definition step_rows :: "fl \<Rightarrow> nat \<Rightarrow> fl list list list \<Rightarrow> nat \<Rightarrow> fl list list" where
  "step_rows dv n dat i = map (\<lambda>k. nan_to_delete dv (dat ! k ! i)) [0..<n]"


text \<open>
  \<^verbatim>\<open>Dfsu.write\<close>. The result is the outcome, the caller's data as the call leaves it,
  and the world.
\<close>

definition "write" :: "world \<Rightarrow> string \<Rightarrow> fl list list list
    \<Rightarrow> (exn + unit) \<times> fl list list list \<times> world" where
  "write w filename data =
     (case DfsuFile_Open w filename of Inl e \<Rightarrow> (Inl e, data, w)
      | Inr dfs \<Rightarrow>
          (let n_time_steps = NumberOfTimeSteps dfs;
               n_items = nat (safe_length (Items dfs));
               deletevalue = DeleteValueFloat dfs
           in case write_steps (narrow w) deletevalue [0..<n_time_steps] n_items data dfs of
                (Some e, data', dfs') \<Rightarrow> (Inl e, data', put_file w filename dfs')
              | (None, data', dfs') \<Rightarrow> (Inr (), data', put_file w filename (Close dfs'))))"

text \<open>The decimal digits of a number, as the f-string prints \<^verbatim>\<open>i+1\<close>.\<close>

fun str_nat :: "nat \<Rightarrow> string" where
  "str_nat n = (if n < 10 then [''0123456789'' ! n]
                else str_nat (n div 10) @ [''0123456789'' ! (n mod 10)])"

text \<open>
  Modelled from the spec: the builder of the storage provider. The elements of a
  two-dimensional mesh are triangles and quadrilaterals, and \<^verbatim>\<open>SetElements\<close> of a
  builder of the two-dimensional kind throws for an element table with any other
  element. \<^verbatim>\<open>CreateFile\<close> throws IOError when the target cannot be opened for
  writing, and otherwise gives an open handle on a container with the declared
  geometry and items, and no time step yet.
\<close>

definition elements_2d :: "int list list \<Rightarrow> bool" where
  "elements_2d table \<longleftrightarrow> (\<forall>e \<in> set table. length e = 3 \<or> length e = 4)"

definition mesh_is_2d :: "MeshFile \<Rightarrow> bool" where
  "mesh_is_2d m \<longleftrightarrow> elements_2d (mesh_ElementTable m)"

record DfsuBuilder =
  b_FileType :: DfsuFileType
  b_X :: "real list"
  b_Y :: "real list"
  b_Z :: "real list"
  b_Code :: "int list"
  b_ElementTable :: "int list list"
  b_Projection :: string
  b_StartDateTime :: real
  b_TimeStepSeconds :: real
  b_ZUnit :: eumUnit
  b_Items :: "ItemInfo list"

definition DfsuBuilder_Create :: "DfsuFileType \<Rightarrow> DfsuBuilder" where
  "DfsuBuilder_Create t =
     \<lparr>b_FileType = t, b_X = [], b_Y = [], b_Z = [], b_Code = [], b_ElementTable = [],
      b_Projection = [], b_StartDateTime = 0, b_TimeStepSeconds = 0, b_ZUnit = UnitUndefined,
      b_Items = []\<rparr>"

definition SetElements :: "DfsuBuilder \<Rightarrow> int list list \<Rightarrow> exn + DfsuBuilder" where
  "SetElements builder table =
     (if b_FileType builder = Dfsu2D \<and> \<not> elements_2d table then Inl DfsError
      else Inr (builder\<lparr>b_ElementTable := table\<rparr>))"

definition AddDynamicItem :: "DfsuBuilder \<Rightarrow> ItemInfo \<Rightarrow> DfsuBuilder" where
  "AddDynamicItem builder item = builder\<lparr>b_Items := b_Items builder @ [item]\<rparr>"

definition CreateFile :: "world \<Rightarrow> DfsuBuilder \<Rightarrow> string \<Rightarrow> exn + DfsuFile" where
  "CreateFile w builder filename =
     (if filename \<in> unwritable w then Inl IOError
      else Inr \<lparr>FileType = b_FileType builder, Items = b_Items builder,
                DeleteValueFloat = new_delete_value w,
                StartDateTime = b_StartDateTime builder,
                TimeStepSeconds = b_TimeStepSeconds builder,
                X = b_X builder, Y = b_Y builder, Z = b_Z builder, Code = b_Code builder,
                ElementTable = b_ElementTable builder, WKTString = b_Projection builder,
                blocks = [], position = 0, is_open = True\<rparr>)"

datatype TimeStep = SECOND | MINUTE | HOUR | DAY

text \<open>
  The \<^verbatim>\<open>try\<close> block of \<^verbatim>\<open>create\<close>: \<^verbatim>\<open>dfs = builder.CreateFile(filename)\<close>
  with a handler for IOError that prints and goes on. The result is the variable
  \<^verbatim>\<open>dfs\<close> afterwards (unbound when the handler ran) and the world; any other
  exception propagates.
\<close>

definition try_CreateFile :: "world \<Rightarrow> DfsuBuilder \<Rightarrow> string \<Rightarrow> exn + (DfsuFile option \<times> world)" where
  "try_CreateFile w builder filename =
     (case CreateFile w builder filename of
        Inr dfs \<Rightarrow> Inr (Some dfs, put_file w filename dfs)
      | Inl e \<Rightarrow>
          (if e = IOError
           then Inr (None, w\<lparr>console := console w @ [''cannot create dfsu file:  '' @ filename]\<rparr>)
           else Inl e))"

text \<open>
  The lines of \<^verbatim>\<open>create\<close> that set the builder up from the mesh and declare the
  items. An exception of \<^verbatim>\<open>SetElements\<close> ends them.
\<close>

definition setup_builder :: "(real \<Rightarrow> fl) \<Rightarrow> MeshFile \<Rightarrow> real \<Rightarrow> real \<Rightarrow> ItemInfo list
    \<Rightarrow> exn + DfsuBuilder" where
  "setup_builder nw mesh system_start_time dt items =
     (let builder = DfsuBuilder_Create Dfsu2D;
          zn = to_dotnet_float_array_real nw (mesh_Z mesh);
          builder = builder\<lparr>b_X := mesh_X mesh, b_Y := mesh_Y mesh, b_Z := zn,
                            b_Code := mesh_Code mesh\<rparr>
      in case SetElements builder (mesh_ElementTable mesh) of Inl e \<Rightarrow> Inl e | Inr builder \<Rightarrow>
        (let proj = ProjectionString mesh;
             builder = builder\<lparr>b_Projection := proj\<rparr>;
             builder = builder\<lparr>b_StartDateTime := system_start_time, b_TimeStepSeconds := dt\<rparr>;
             builder = builder\<lparr>b_ZUnit := UnitMeter\<rparr>
         in Inr (foldl AddDynamicItem builder items)))"

text \<open>
  \<^verbatim>\<open>Dfsu.create\<close>. \<open>now\<close> is what \<^verbatim>\<open>datetime.now()\<close> returns. After the
  \<^verbatim>\<open>try\<close> block, \<^verbatim>\<open>dfs.DeleteValueFloat\<close> reads the variable \<^verbatim>\<open>dfs\<close>, which
  is unbound when the handler ran. The title and the time unit are not used.
\<close>

definition create :: "world \<Rightarrow> real \<Rightarrow> string \<Rightarrow> string \<Rightarrow> fl list list list \<Rightarrow> real option
    \<Rightarrow> real \<Rightarrow> TimeStep \<Rightarrow> ItemInfo list option \<Rightarrow> string option
    \<Rightarrow> (exn + unit) \<times> fl list list list \<times> world" where
  "create w now meshfilename filename data start_time dt timeseries_unit items title =
     (let n_items = length data in
      case np_index data 0 of Inl e \<Rightarrow> (Inl e, data, w) | Inr data0 \<Rightarrow>
      (let n_time_steps = length data0;
           start_time = (case start_time of None \<Rightarrow> now | Some t \<Rightarrow> t);
           items = (case items of
                      None \<Rightarrow> map (\<lambda>i. ItemInfo_of_name (''temItem '' @ str_nat (i + 1))) [0..<n_items]
                    | Some its \<Rightarrow> its);
           title = (case title of None \<Rightarrow> [] | Some t \<Rightarrow> t);
           system_start_time = start_time
       in case ReadMesh w meshfilename of Inl e \<Rightarrow> (Inl e, data, w) | Inr mesh \<Rightarrow>
         (case setup_builder (narrow w) mesh system_start_time dt items of
            Inl e \<Rightarrow> (Inl e, data, w)
          | Inr builder \<Rightarrow>
         (case try_CreateFile w builder filename of
            Inl e \<Rightarrow> (Inl e, data, w)
          | Inr (None, w') \<Rightarrow> (Inl UnboundLocalError, data, w')
          | Inr (Some dfs, w') \<Rightarrow>
              (let deletevalue = DeleteValueFloat dfs in
               case write_steps (narrow w) deletevalue [0..<n_time_steps] n_items data dfs of
                 (Some e, data', dfs') \<Rightarrow> (Inl e, data', put_file w' filename dfs')
               | (None, data', dfs') \<Rightarrow> (Inr (), data', put_file w' filename (Close dfs')))))))"

text \<open>
  The items \<open>create\<close> declares when none are given, and the handle that \<open>CreateFile\<close>
  returns for the builder \<open>create\<close> has set up.
\<close>

definition default_items :: "nat \<Rightarrow> ItemInfo list" where
  "default_items n = map (\<lambda>i. ItemInfo_of_name (''temItem '' @ str_nat (i + 1))) [0..<n]"

definition new_file :: "world \<Rightarrow> MeshFile \<Rightarrow> real \<Rightarrow> real \<Rightarrow> ItemInfo list \<Rightarrow> DfsuFile" where
  "new_file w mesh start dt its =
     \<lparr>FileType = Dfsu2D, Items = its, DeleteValueFloat = new_delete_value w,
      StartDateTime = start, TimeStepSeconds = dt,
      X = mesh_X mesh, Y = mesh_Y mesh,
      Z = to_dotnet_float_array_real (narrow w) (mesh_Z mesh), Code = mesh_Code mesh,
      ElementTable = mesh_ElementTable mesh, WKTString = ProjectionString mesh,
      blocks = [], position = 0, is_open = True\<rparr>"

section \<open>Writing and reading back\<close>

text \<open>
  The number of leading items that \<open>read\<close> skips: one in a container of a
  three-dimensional kind, whose first item is the dynamic vertical position.
\<close>

definition item_offset :: "DfsuFile \<Rightarrow> nat" where
  "item_offset dfs = (if is_3d dfs then 1 else 0)"

text \<open>
  What is stored for a sample with the delete value \<open>dv\<close>: the delete value for a NaN
  and the sample otherwise, narrowed to single precision. What \<open>read\<close> makes of it:
  NaN when what is stored equals the delete value, and what is stored otherwise.
  \<open>read_back\<close> is that for the rows \<open>0..<nt\<close> of the arrays \<open>off..<n\<close> of the data.
\<close>

definition stored :: "(real \<Rightarrow> fl) \<Rightarrow> fl \<Rightarrow> fl \<Rightarrow> fl" where
  "stored nw dv v = to_single nw (if isnan v then dv else v)"

definition roundtrip :: "(real \<Rightarrow> fl) \<Rightarrow> fl \<Rightarrow> fl \<Rightarrow> fl" where
  "roundtrip nw dv v = (if fl_eq (stored nw dv v) dv then NaN else stored nw dv v)"




section \<open>An example container\<close>

text \<open>
  One quadrilateral on the nodes (0,0), (1,0), (1,1), (0,1), one item and two time
  steps; the first two nodes carry code 1. The delete value is the single-precision
  number nearest to \<^verbatim>\<open>-1e-35\<close>. All numbers of the examples are single-precision
  numbers, and the narrowing of the example world leaves every number as it is.
\<close>

definition square_mesh :: MeshFile where
  "square_mesh = \<lparr>mesh_X = [0, 1, 1, 0], mesh_Y = [0, 0, 1, 1], mesh_Z = [0, 0, 0, 0],
     mesh_Code = [1, 1, 0, 0], mesh_ElementTable = [[1, 2, 3, 4]], ProjectionString = ''UTM-33''\<rparr>"

definition square_dfs :: DfsuFile where
  "square_dfs = \<lparr>FileType = Dfsu2D, Items = [ItemInfo_of_name ''Item 1''],
     DeleteValueFloat = Num (- 6968983 / 2 ^ 139), StartDateTime = 0, TimeStepSeconds = 1,
     X = [0, 1, 1, 0], Y = [0, 0, 1, 1], Z = [0, 0, 0, 0], Code = [1, 1, 0, 0],
     ElementTable = [[1, 2, 3, 4]], WKTString = ''UTM-33'',
     blocks = [[Num 0], [Num 0]], position = 0, is_open = False\<rparr>"

text \<open>A mesh of one prism on six nodes: a three-dimensional element.\<close>

definition prism_mesh :: MeshFile where
  "prism_mesh = \<lparr>mesh_X = [0, 1, 0, 0, 1, 0], mesh_Y = [0, 0, 1, 0, 0, 1],
     mesh_Z = [0, 0, 0, 1, 1, 1], mesh_Code = [0, 0, 0, 0, 0, 0],
     mesh_ElementTable = [[1, 2, 3, 4, 5, 6]], ProjectionString = ''UTM-33''\<rparr>"

definition example_world :: world where
  "example_world = \<lparr>dfsu_files = [''square.dfsu'' \<mapsto> square_dfs],
     mesh_files = [''square.mesh'' \<mapsto> square_mesh, ''prism.mesh'' \<mapsto> prism_mesh],
     unwritable = {''/readonly/out.dfsu''},
     new_delete_value = Num (- 6968983 / 2 ^ 139), narrow = Num, console = []\<rparr>"

text \<open>
  A strip of eighteen unit quadrilaterals between the node rows \<open>y = 0\<close> (nodes 1 to
  19) and \<open>y = 1\<close> (nodes 20 to 38), listed from left to right.
\<close>

definition strip_dfs :: DfsuFile where
  "strip_dfs = \<lparr>FileType = Dfsu2D, Items = [ItemInfo_of_name ''Item 1''],
     DeleteValueFloat = Num (- 6968983 / 2 ^ 139), StartDateTime = 0, TimeStepSeconds = 1,
     X = map real [0..<19] @ map real [0..<19],
     Y = replicate 19 0 @ replicate 19 1,
     Z = replicate 38 0,
     Code = replicate 38 1,
     ElementTable = [[1, 2, 21, 20], [2, 3, 22, 21], [3, 4, 23, 22], [4, 5, 24, 23],
        [5, 6, 25, 24], [6, 7, 26, 25], [7, 8, 27, 26], [8, 9, 28, 27], [9, 10, 29, 28],
        [10, 11, 30, 29], [11, 12, 31, 30], [12, 13, 32, 31], [13, 14, 33, 32],
        [14, 15, 34, 33], [15, 16, 35, 34], [16, 17, 36, 35], [17, 18, 37, 36],
        [18, 19, 38, 37]],
     WKTString = ''UTM-33'', blocks = [], position = 0, is_open = False\<rparr>"

section \<open>Theorems\<close>

lemma filter_zip_mask_nths:
  "length cs = length ns \<Longrightarrow>
   map fst (filter snd (zip ns (map (\<lambda>k. k = cd) cs))) = nths ns {k. k < length cs \<and> cs ! k = cd}"
proof (induction ns arbitrary: cs)
  case Nil
  then show ?case by simp
next
  case (Cons n ns)
  then obtain c cs' where cs: "cs = c # cs'" and len: "length cs' = length ns"
    by (cases cs) auto
  have shift: "{j. Suc j < length cs \<and> cs ! Suc j = cd} = {k. k < length cs' \<and> cs' ! k = cd}"
    by (auto simp: cs)
  show ?case
    using Cons.IH [OF len] by (simp add: cs nths_Cons shift)
qed

text \<open>
  C8: with the node columns and the node codes of equal length, \<open>get_node_coords\<close>
  with a filter code that occurs among the node codes returns exactly the
  subsequence, in node order, of the (x, y, z) triples whose code equals the filter
  code; a code that does not occur raises the exception; no code returns all nodes.
\<close>

theorem C8_get_node_coords:
  assumes "nodes_wf dfs"
  shows "get_node_coords dfs None = Inr (mesh_nodes dfs)
       \<and> (cd \<in> set (Code dfs) \<longrightarrow>
           get_node_coords dfs (Some cd) = Inr (nodes_with_code (mesh_nodes dfs) (Code dfs) cd))
       \<and> (cd \<notin> set (Code dfs) \<longrightarrow> get_node_coords dfs (Some cd) = Inl PlainException)"
proof -
  have cs: "column_stack3 (X dfs) (Y dfs) (Z dfs) = Inr (mesh_nodes dfs)"
    using assms by (simp add: column_stack3_def nodes_wf_def mesh_nodes_def)
  have len: "length (Code dfs) = length (mesh_nodes dfs)"
    using assms by (simp add: nodes_wf_def mesh_nodes_def)
  have all: "get_node_coords dfs None = Inr (mesh_nodes dfs)"
    by (simp add: get_node_coords_def cs)
  have hit: "get_node_coords dfs (Some cd) = Inr (nodes_with_code (mesh_nodes dfs) (Code dfs) cd)"
    if "cd \<in> set (Code dfs)"
    using that len filter_zip_mask_nths [OF len, of cd]
    by (simp add: get_node_coords_def cs mask_rows_def nodes_with_code_def)
  have miss: "get_node_coords dfs (Some cd) = Inl PlainException" if "cd \<notin> set (Code dfs)"
    using that by (simp add: get_node_coords_def cs)
  show ?thesis using all hit miss by blast
qed

theorem C8_get_node_coords_witness:
  "nodes_wf square_dfs
   \<and> get_node_coords square_dfs None = Inr (mesh_nodes square_dfs)
   \<and> 1 \<in> set (Code square_dfs)
   \<and> get_node_coords square_dfs (Some 1) = Inr [(0, 0, 0), (1, 0, 0)]
   \<and> 7 \<notin> set (Code square_dfs)
   \<and> get_node_coords square_dfs (Some 7) = Inl PlainException"
proof -
  have wf: "nodes_wf square_dfs"
    by (simp add: nodes_wf_def square_dfs_def)
  have sel: "nodes_with_code (mesh_nodes square_dfs) (Code square_dfs) 1 = [(0, 0, 0), (1, 0, 0)]"
    by (simp add: nodes_with_code_def mesh_nodes_def square_dfs_def nths_Cons)
  have c7: "7 \<notin> set (Code square_dfs)" and c1: "1 \<in> set (Code square_dfs)"
    by (simp_all add: square_dfs_def)
  show ?thesis
    using wf sel c1 c7 C8_get_node_coords [OF wf, of 1] C8_get_node_coords [OF wf, of 7]
    by simp
qed

subsection \<open>The write loops\<close>

lemma np_index_nat_Inr: "np_index xs (int k) = Inr v \<longleftrightarrow> k < length xs \<and> v = xs ! k"
  by (auto simp: np_index_def)

lemma np_index_nat_Inl: "np_index xs (int k) = Inl e \<longleftrightarrow> length xs \<le> k \<and> e = IndexError"
  by (auto simp: np_index_def)

lemma write_items_Cons:
  "write_items nw dv i (a # its) dat dfs =
     (if a < length dat \<and> i < length (dat ! a)
      then write_items nw dv i its (dat[a := (dat ! a)[i := nan_to_delete dv (dat ! a ! i)]])
             (write_next nw dfs (nan_to_delete dv (dat ! a ! i)))
      else (Some IndexError, dat, dfs))"
  by (auto simp: np_index_def Let_def write_next_def)

lemma write_items_result:
  assumes "write_items nw dv i its dat dfs = (None, dat', dfs')" and "distinct its"
  shows "length dat' = length dat
    \<and> (\<forall>k<length dat. dat' ! k = (if k \<in> set its then (dat ! k)[i := nan_to_delete dv (dat ! k ! i)] else dat ! k))
    \<and> (\<forall>k\<in>set its. k < length dat \<and> i < length (dat ! k))
    \<and> dfs' = foldl (write_next nw) dfs (map (\<lambda>k. nan_to_delete dv (dat ! k ! i)) its)"
  using assms
proof (induction its arbitrary: dat dfs)
  case Nil
  then show ?case by simp
next
  case (Cons a its)
  from Cons.prems(1) have a: "a < length dat" and i: "i < length (dat ! a)"
    by (auto simp: write_items_Cons simp del: write_items.simps split: if_splits)
  let ?d = "nan_to_delete dv (dat ! a ! i)"
  let ?dat1 = "dat[a := (dat ! a)[i := ?d]]"
  let ?dfs1 = "write_next nw dfs ?d"
  have step: "write_items nw dv i its ?dat1 ?dfs1 = (None, dat', dfs')"
    using Cons.prems(1) a i by (simp add: write_items_Cons del: write_items.simps)
  have dist: "distinct its" and notin: "a \<notin> set its"
    using Cons.prems(2) by auto
  note IH = Cons.IH [OF step dist]
  have ne: "a \<noteq> k" if "k \<in> set its" for k
    using that notin by blast
  have rows: "map (\<lambda>k. nan_to_delete dv (?dat1 ! k ! i)) its = map (\<lambda>k. nan_to_delete dv (dat ! k ! i)) its"
    by (simp add: ne)
  have A: "length dat' = length dat" using IH by simp
  have B: "dat' ! k = (if k \<in> set (a # its) then (dat ! k)[i := nan_to_delete dv (dat ! k ! i)] else dat ! k)"
    if k: "k < length dat" for k
  proof (cases "k = a")
    case True
    then show ?thesis using IH k notin by simp
  next
    case False
    then have "?dat1 ! k = dat ! k" by simp
    then show ?thesis using IH k False by simp
  qed
  have C: "k < length dat \<and> i < length (dat ! k)" if "k \<in> set (a # its)" for k
  proof (cases "k = a")
    case True
    then show ?thesis using a i by simp
  next
    case False
    then have "k \<in> set its" and "?dat1 ! k = dat ! k" using that by simp_all
    then show ?thesis using IH by auto
  qed
  have D: "dfs' = foldl (write_next nw) dfs (map (\<lambda>k. nan_to_delete dv (dat ! k ! i)) (a # its))"
    using IH rows by simp
  show ?case using A B C D by blast
qed

lemma write_items_error:
  "write_items nw dv i its dat dfs = (Some e, dat', dfs') \<Longrightarrow> e = IndexError"
proof (induction its arbitrary: dat dfs)
  case Nil
  then show ?case by simp
next
  case (Cons a its)
  then show ?case
    by (auto simp: write_items_Cons simp del: write_items.simps split: if_splits)
qed

lemma write_next_frame: "\<exists>bs p. write_next nw dfs r = dfs\<lparr>blocks := bs, position := p\<rparr>"
  by (auto simp: write_next_def WriteItemTimeStepNext_def)

lemma write_items_frame:
  "write_items nw dv i its dat dfs = (r, dat', dfs') \<Longrightarrow>
     \<exists>bs p. dfs' = dfs\<lparr>blocks := bs, position := p\<rparr>"
proof (induction its arbitrary: dat dfs)
  case Nil
  then have "dfs' = dfs\<lparr>blocks := blocks dfs, position := position dfs\<rparr>" by simp
  then show ?case by blast
next
  case (Cons a its)
  show ?case
  proof (cases "a < length dat \<and> i < length (dat ! a)")
    case False
    then have "dfs' = dfs\<lparr>blocks := blocks dfs, position := position dfs\<rparr>"
      using Cons.prems by (auto simp: write_items_Cons simp del: write_items.simps)
    then show ?thesis by blast
  next
    case True
    let ?d = "nan_to_delete dv (dat ! a ! i)"
    have "write_items nw dv i its (dat[a := (dat ! a)[i := ?d]]) (write_next nw dfs ?d) = (r, dat', dfs')"
      using Cons.prems True by (simp add: write_items_Cons del: write_items.simps)
    from Cons.IH [OF this] obtain bs p where
      "dfs' = (write_next nw dfs ?d)\<lparr>blocks := bs, position := p\<rparr>"
      by blast
    moreover obtain bs0 p0 where "write_next nw dfs ?d = dfs\<lparr>blocks := bs0, position := p0\<rparr>"
      using write_next_frame by blast
    ultimately have "dfs' = dfs\<lparr>blocks := bs, position := p\<rparr>"
      by simp
    then show ?thesis by blast
  qed
qed

lemma write_steps_cases:
  obtains (ok) d1 f1 where "write_items nw dv i [0..<n] dat dfs = (None, d1, f1)"
  | (err) e d1 f1 where "write_items nw dv i [0..<n] dat dfs = (Some e, d1, f1)"
  by (metis option.exhaust prod_cases3)

lemma write_steps_frame:
  "write_steps nw dv steps n dat dfs = (r, dat', dfs') \<Longrightarrow>
     \<exists>bs p. dfs' = dfs\<lparr>blocks := bs, position := p\<rparr>"
proof (induction steps arbitrary: dat dfs)
  case Nil
  then have "dfs' = dfs\<lparr>blocks := blocks dfs, position := position dfs\<rparr>" by simp
  then show ?case by blast
next
  case (Cons i steps)
  show ?case
  proof (cases rule: write_steps_cases [of nw dv i n dat dfs])
    case (ok d1 f1)
    from write_items_frame [OF ok] obtain bs p where f1: "f1 = dfs\<lparr>blocks := bs, position := p\<rparr>"
      by blast
    have "write_steps nw dv steps n d1 f1 = (r, dat', dfs')"
      using Cons.prems ok by simp
    from Cons.IH [OF this] obtain bs' p' where "dfs' = f1\<lparr>blocks := bs', position := p'\<rparr>"
      by blast
    then have "dfs' = dfs\<lparr>blocks := bs', position := p'\<rparr>" by (simp add: f1)
    then show ?thesis by blast
  next
    case (err e d1 f1)
    then have "dfs' = f1" using Cons.prems by simp
    then show ?thesis using write_items_frame [OF err] by simp
  qed
qed

lemma write_steps_error:
  "write_steps nw dv steps n dat dfs = (Some e, dat', dfs') \<Longrightarrow> e = IndexError"
proof (induction steps arbitrary: dat dfs)
  case Nil
  then show ?case by simp
next
  case (Cons i steps)
  show ?case
  proof (cases rule: write_steps_cases [of nw dv i n dat dfs])
    case (ok d1 f1)
    then show ?thesis using Cons by simp
  next
    case (err e' d1 f1)
    then show ?thesis using Cons.prems write_items_error [OF err] by simp
  qed
qed

lemma write_steps_result:
  assumes "write_steps nw dv steps n dat dfs = (None, dat', dfs')" and "distinct steps"
  shows "length dat' = length dat
    \<and> (\<forall>k<length dat. length (dat' ! k) = length (dat ! k)
          \<and> (\<forall>i<length (dat ! k). dat' ! k ! i =
                (if k < n \<and> i \<in> set steps then nan_to_delete dv (dat ! k ! i) else dat ! k ! i)))
    \<and> (steps \<noteq> [] \<longrightarrow> n \<le> length dat)
    \<and> (\<forall>k<n. \<forall>i\<in>set steps. i < length (dat ! k))
    \<and> dfs' = foldl (write_next nw) dfs (concat (map (step_rows dv n dat) steps))"
  using assms
proof (induction steps arbitrary: dat dfs)
  case Nil
  then show ?case by simp
next
  case (Cons i steps)
  from Cons.prems(1) obtain d1 f1 where wi: "write_items nw dv i [0..<n] dat dfs = (None, d1, f1)"
    and ws: "write_steps nw dv steps n d1 f1 = (None, dat', dfs')"
    by (cases rule: write_steps_cases [of nw dv i n dat dfs]) auto
  have dist: "distinct steps" and notin: "i \<notin> set steps"
    using Cons.prems(2) by auto
  note R1 = write_items_result [OF wi distinct_upt]
  note IH = Cons.IH [OF ws dist]
  have len1: "length d1 = length dat" using R1 by simp
  have n_le: "n \<le> length dat"
    using R1 by (cases n) (auto simp: not_less_eq_eq)
  have d1k: "d1 ! k = (if k < n then (dat ! k)[i := nan_to_delete dv (dat ! k ! i)] else dat ! k)"
    if "k < length dat" for k
    using R1 that by simp
  have ik: "i < length (dat ! k)" if "k < n" for k
    using R1 that by simp
  have rows: "step_rows dv n d1 j = step_rows dv n dat j" if "j \<in> set steps" for j
  proof -
    have ne: "i \<noteq> j" using that notin by blast
    have "d1 ! k ! j = dat ! k ! j" if "k < n" for k
      using d1k [of k] that n_le ne by simp
    then show ?thesis by (simp add: step_rows_def)
  qed
  have f1: "f1 = foldl (write_next nw) dfs (step_rows dv n dat i)"
    using R1 by (simp add: step_rows_def)
  have A: "length dat' = length dat" using IH len1 by simp
  have B: "length (dat' ! k) = length (dat ! k)
          \<and> (\<forall>j<length (dat ! k). dat' ! k ! j =
                (if k < n \<and> j \<in> set (i # steps) then nan_to_delete dv (dat ! k ! j) else dat ! k ! j))"
    if k: "k < length dat" for k
  proof -
    have l: "length (d1 ! k) = length (dat ! k)" using d1k [OF k] by simp
    from IH k len1 have h: "length (dat' ! k) = length (d1 ! k)"
      and g: "\<forall>j<length (d1 ! k). dat' ! k ! j =
                (if k < n \<and> j \<in> set steps then nan_to_delete dv (d1 ! k ! j) else d1 ! k ! j)"
      by auto
    have "dat' ! k ! j =
            (if k < n \<and> j \<in> set (i # steps) then nan_to_delete dv (dat ! k ! j) else dat ! k ! j)"
      if j: "j < length (dat ! k)" for j
    proof (cases "j = i")
      case True
      then have "dat' ! k ! j = d1 ! k ! j" using g j l notin by simp
      then show ?thesis using True d1k [OF k] j by simp
    next
      case False
      then have "d1 ! k ! j = dat ! k ! j" using d1k [OF k] by simp
      then show ?thesis using g j l False by simp
    qed
    then show ?thesis using h l by simp
  qed
  have C: "\<forall>k<n. \<forall>j\<in>set (i # steps). j < length (dat ! k)"
  proof (intro allI impI ballI)
    fix k j assume k: "k < n" and j: "j \<in> set (i # steps)"
    have kl: "k < length dat" using k n_le by simp
    show "j < length (dat ! k)"
    proof (cases "j = i")
      case True
      then show ?thesis using ik [OF k] by simp
    next
      case False
      then have "j \<in> set steps" using j by simp
      then have "j < length (d1 ! k)" using IH k by blast
      moreover have "length (d1 ! k) = length (dat ! k)" using d1k [OF kl] by simp
      ultimately show ?thesis by simp
    qed
  qed
  have D: "dfs' = foldl (write_next nw) dfs (concat (map (step_rows dv n dat) (i # steps)))"
  proof -
    have eq: "map (step_rows dv n d1) steps = map (step_rows dv n dat) steps"
      using rows by simp
    have "dfs' = foldl (write_next nw) f1 (concat (map (step_rows dv n d1) steps))"
      using IH by blast
    then show ?thesis unfolding eq f1 by simp
  qed
  show ?case using A B C D n_le by blast
qed

subsection \<open>Creating a container\<close>

lemmas create_defs = create_def np_index_def ReadMesh_def
  try_CreateFile_def CreateFile_def setup_builder_def DfsuBuilder_Create_def AddDynamicItem_def
  SetElements_def elements_2d_def to_single_def
  ItemInfo_of_name_def to_dotnet_float_array_real_def put_file_def Close_def
  WriteItemTimeStepNext_def nan_to_delete_def to_dotnet_float_array_def

text \<open>
  C4: when the target cannot be opened for writing (and the mesh file exists and holds
  a two-dimensional mesh, and there is data), the IOError of \<open>CreateFile\<close> is caught and only printed; \<open>create\<close> goes on
  and fails with UnboundLocalError at the next line. The caller sees that error and not
  the creation failure; no container is written and the data is untouched.
\<close>

theorem C4_create_unwritable:
  assumes "filename \<in> unwritable w" and "mesh_files w meshfilename = Some mesh"
    and "mesh_is_2d mesh" and "dat \<noteq> []"
  shows "create w now meshfilename filename dat start_time dt timeseries_unit its title =
     (Inl UnboundLocalError, dat,
      w\<lparr>console := console w @ [''cannot create dfsu file:  '' @ filename]\<rparr>)"
  using assms
  by (simp add: create_def np_index_def ReadMesh_def try_CreateFile_def CreateFile_def Let_def
      setup_builder_def SetElements_def mesh_is_2d_def DfsuBuilder_Create_def)

theorem C4_create_unwritable_witness:
  "''/readonly/out.dfsu'' \<in> unwritable example_world
   \<and> mesh_files example_world ''square.mesh'' = Some square_mesh
   \<and> mesh_is_2d square_mesh
   \<and> [[[Num 1], [NaN]]] \<noteq> []
   \<and> create example_world 0 ''square.mesh'' ''/readonly/out.dfsu'' [[[Num 1], [NaN]]]
        None 1 SECOND None None =
      (Inl UnboundLocalError, [[[Num 1], [NaN]]],
       example_world\<lparr>console := console example_world
          @ [''cannot create dfsu file:  '' @ ''/readonly/out.dfsu'']\<rparr>)"
proof -
  have u: "''/readonly/out.dfsu'' \<in> unwritable example_world"
    by (simp add: example_world_def)
  have m: "mesh_files example_world ''square.mesh'' = Some square_mesh"
    by (simp add: example_world_def)
  have d: "[[[Num 1], [NaN]]] \<noteq> ([] :: fl list list list)"
    by simp
  have q: "mesh_is_2d square_mesh"
    by (simp add: mesh_is_2d_def elements_2d_def square_mesh_def)
  show ?thesis
    using u m q C4_create_unwritable [OF u m q d, of 0 None 1 SECOND None None] by simp
qed

text \<open>
  C5: with the items omitted, the names that \<open>create\<close> declares are
  \<^verbatim>\<open>temItem 1\<close>, \<^verbatim>\<open>temItem 2\<close>, not \<^verbatim>\<open>Item 1\<close>, \<^verbatim>\<open>Item 2\<close>: here for two data
  arrays on the square mesh.
\<close>

theorem C5_create_default_items:
  "map_option (map name \<circ> Items)
     (dfsu_files (snd (snd (create example_world 0 ''square.mesh'' ''new.dfsu''
        [[[Num 1], [NaN]], [[Num 2], [Num 3]]] None 1 SECOND None None))) ''new.dfsu'')
   = Some [''temItem 1'', ''temItem 2'']"
  by (simp add: create_defs example_world_def square_mesh_def upt_rec Let_def)

lemmas read_defs = read_def DfsuFile_Open_def read_opened_def read_selected_def is_3d_def
  safe_length_def NumberOfTimeSteps_def NumberOfElements_def ReadItemTimeStep_def
  np_index_def np_store_def assign_row_def delete_to_nan_def to_numpy_def put_file_def Close_def
  ItemInfo_of_name_def

lemmas write_defs = write_def DfsuFile_Open_def safe_length_def NumberOfTimeSteps_def
  to_single_def
  np_index_def nan_to_delete_def to_dotnet_float_array_def WriteItemTimeStepNext_def
  put_file_def Close_def ItemInfo_of_name_def

lemma write_steps_is_open:
  "write_steps nw dv steps n dat dfs = (r, dat', dfs') \<Longrightarrow> is_open dfs' = is_open dfs"
  using write_steps_frame [of nw dv steps n dat dfs r dat' dfs'] by auto

lemma read_handle:
  assumes "read w fn ins inm ts = (r, w')" and "dfsu_files w fn = Some f"
  shows "map_option is_open (dfsu_files w' fn) = Some (isl r)"
proof (cases "read_opened (f\<lparr>position := 0, is_open := True\<rparr>) ins inm ts")
  case (Inl e)
  show ?thesis using assms
    by (auto simp: Inl read_def DfsuFile_Open_def put_file_def)
next
  case (Inr ds)
  show ?thesis using assms
    by (auto simp: Inr read_def DfsuFile_Open_def put_file_def Close_def)
qed

lemma write_unfold:
  assumes "dfsu_files w fn = Some f"
  obtains r1 d1 f1 where
    "write_steps (narrow w) (DeleteValueFloat f) [0..<NumberOfTimeSteps f] (length (Items f)) dat
        (f\<lparr>position := 0, is_open := True\<rparr>) = (r1, d1, f1)"
    and "write w fn dat = (case r1 of Some e \<Rightarrow> (Inl e, d1, put_file w fn f1)
                           | None \<Rightarrow> (Inr (), d1, put_file w fn (Close f1)))"
proof -
  obtain r1 d1 f1 where ws:
    "write_steps (narrow w) (DeleteValueFloat f) [0..<NumberOfTimeSteps f] (length (Items f)) dat
        (f\<lparr>position := 0, is_open := True\<rparr>) = (r1, d1, f1)"
    using prod_cases3 by blast
  have "write w fn dat = (case r1 of Some e \<Rightarrow> (Inl e, d1, put_file w fn f1)
                           | None \<Rightarrow> (Inr (), d1, put_file w fn (Close f1)))"
    using assms ws
    by (simp add: write_def DfsuFile_Open_def Let_def safe_length_def NumberOfTimeSteps_def
        split: option.splits)
  then show ?thesis using ws that by blast
qed

lemma write_handle:
  assumes "write w fn dat = (r, dat', w')" and "dfsu_files w fn = Some f"
  shows "map_option is_open (dfsu_files w' fn) = Some (isl r)"
proof -
  from write_unfold [OF assms(2), of dat] obtain r1 d1 f1 where
    ws: "write_steps (narrow w) (DeleteValueFloat f) [0..<NumberOfTimeSteps f] (length (Items f)) dat
        (f\<lparr>position := 0, is_open := True\<rparr>) = (r1, d1, f1)"
    and w: "write w fn dat = (case r1 of Some e \<Rightarrow> (Inl e, d1, put_file w fn f1)
                           | None \<Rightarrow> (Inr (), d1, put_file w fn (Close f1)))"
    by blast
  have "is_open f1" using write_steps_is_open [OF ws] by simp
  then show ?thesis using assms(1) w
    by (cases r1) (auto simp: put_file_def Close_def)
qed

lemma foldl_AddDynamicItem:
  "foldl AddDynamicItem b its = b\<lparr>b_Items := b_Items b @ its\<rparr>"
  by (induction its arbitrary: b) (simp_all add: AddDynamicItem_def)

lemma setup_builder_2d:
  "mesh_is_2d mesh \<Longrightarrow> \<exists>b. setup_builder nw mesh start dt its = Inr b
     \<and> (\<forall>w fn. narrow w = nw \<longrightarrow> fn \<notin> unwritable w \<longrightarrow>
           CreateFile w b fn = Inr (new_file w mesh start dt its))"
  by (simp add: CreateFile_def setup_builder_def DfsuBuilder_Create_def foldl_AddDynamicItem
      new_file_def SetElements_def mesh_is_2d_def Let_def)

lemma setup_builder_not_2d:
  "\<not> mesh_is_2d mesh \<Longrightarrow> setup_builder nw mesh start dt its = Inl DfsError"
  by (simp add: setup_builder_def DfsuBuilder_Create_def SetElements_def mesh_is_2d_def Let_def)

lemma create_unfold:
  assumes "mesh_files w mfn = Some mesh" and "fn \<notin> unwritable w" and "dat \<noteq> []"
    and "mesh_is_2d mesh"
  obtains r1 d1 f1 where
    "write_steps (narrow w) (new_delete_value w) [0..<length (dat ! 0)] (length dat) dat
        (new_file w mesh (case st of None \<Rightarrow> now | Some t \<Rightarrow> t) dt
           (case its of None \<Rightarrow> default_items (length dat) | Some l \<Rightarrow> l)) = (r1, d1, f1)"
    and "create w now mfn fn dat st dt tu its title =
           (case r1 of Some e \<Rightarrow> (Inl e, d1, put_file w fn f1)
            | None \<Rightarrow> (Inr (), d1, put_file w fn (Close f1)))"
proof -
  let ?start = "(case st of None \<Rightarrow> now | Some t \<Rightarrow> t)"
  let ?its = "(case its of None \<Rightarrow> default_items (length dat) | Some l \<Rightarrow> l)"
  let ?nf = "new_file w mesh ?start dt ?its"
  obtain r1 d1 f1 where ws:
    "write_steps (narrow w) (new_delete_value w) [0..<length (dat ! 0)] (length dat) dat ?nf
       = (r1, d1, f1)"
    using prod_cases3 by blast
  have dv: "DeleteValueFloat ?nf = new_delete_value w" by (simp add: new_file_def)
  have i0: "np_index dat 0 = Inr (dat ! 0)" using assms(3) by (simp add: np_index_def)
  from setup_builder_2d [OF assms(4), of "narrow w" ?start dt ?its] obtain b where
    sb: "setup_builder (narrow w) mesh ?start dt ?its = Inr b"
    and cf: "CreateFile w b fn = Inr ?nf"
    using assms(2) by blast
  have its: "(case its of None \<Rightarrow> map (\<lambda>i. ItemInfo_of_name (''temItem '' @ str_nat (i + 1)))
                 [0..<length dat] | Some l \<Rightarrow> l) = ?its"
    by (cases its) (simp_all add: default_items_def)
  have "create w now mfn fn dat st dt tu its title =
           (case r1 of Some e \<Rightarrow> (Inl e, d1, put_file w fn f1)
            | None \<Rightarrow> (Inr (), d1, put_file w fn (Close f1)))"
    using assms(1) ws dv i0
    by (simp add: create_def ReadMesh_def try_CreateFile_def Let_def its sb cf put_file_def
        split: option.splits)
  then show ?thesis using ws that by blast
qed

lemma create_not_2d:
  assumes "mesh_files w mfn = Some mesh" and "\<not> mesh_is_2d mesh" and "dat \<noteq> []"
  shows "create w now mfn fn dat st dt tu its title = (Inl DfsError, dat, w)"
  using assms
  by (simp add: create_def np_index_def ReadMesh_def Let_def setup_builder_not_2d)

lemma create_success:
  assumes "create w now mfn fn dat st dt tu its title = (Inr u, dat', w')"
  shows "\<exists>mesh. mesh_files w mfn = Some mesh \<and> fn \<notin> unwritable w \<and> dat \<noteq> []
           \<and> mesh_is_2d mesh"
proof -
  from assms have d: "dat \<noteq> []"
    by (auto simp: create_def np_index_def Let_def split: if_splits)
  from assms d obtain mesh where m: "mesh_files w mfn = Some mesh"
    by (cases "mesh_files w mfn") (auto simp: create_def np_index_def ReadMesh_def Let_def)
  have q: "mesh_is_2d mesh"
  proof (rule ccontr)
    assume "\<not> mesh_is_2d mesh"
    from create_not_2d [OF m this d] show False using assms by simp
  qed
  have "fn \<notin> unwritable w"
  proof
    assume "fn \<in> unwritable w"
    then show False using assms d m q
      by (simp add: create_def np_index_def ReadMesh_def try_CreateFile_def CreateFile_def Let_def
          setup_builder_def SetElements_def mesh_is_2d_def DfsuBuilder_Create_def)
  qed
  then show ?thesis using d m q by blast
qed

lemma create_handle:
  assumes "mesh_files w mfn = Some mesh" and "fn \<notin> unwritable w" and "dat \<noteq> []"
    and "mesh_is_2d mesh"
    and "create w now mfn fn dat st dt tu its title = (r, dat', w')"
  shows "map_option is_open (dfsu_files w' fn) = Some (isl r)"
proof -
  let ?nf = "new_file w mesh (case st of None \<Rightarrow> now | Some t \<Rightarrow> t) dt
           (case its of None \<Rightarrow> default_items (length dat) | Some l \<Rightarrow> l)"
  from create_unfold [OF assms(1-4), where st=st and now=now and dt=dt and its=its and tu=tu
      and title=title]
  obtain r1 d1 f1 where
    ws: "write_steps (narrow w) (new_delete_value w) [0..<length (dat ! 0)] (length dat) dat ?nf = (r1, d1, f1)"
    and c: "create w now mfn fn dat st dt tu its title =
           (case r1 of Some e \<Rightarrow> (Inl e, d1, put_file w fn f1)
            | None \<Rightarrow> (Inr (), d1, put_file w fn (Close f1)))"
    by blast
  have "is_open f1" using write_steps_is_open [OF ws] by (simp add: new_file_def)
  then show ?thesis using assms(5) c by (cases r1) (auto simp: put_file_def Close_def)
qed

text \<open>
  C3, amended: an operation that returns normally has closed the handle it opened; an
  operation that ends with an exception after opening the handle leaves it open. For
  \<open>read\<close> and \<open>write\<close> on an existing container, and for \<open>create\<close> when it gets as
  far as opening one (an existing mesh file with a two-dimensional mesh, a writable
  target and some data), the handle is open afterwards exactly when the result is an
  exception. When the provider refuses the element table of the mesh, \<open>create\<close> ends
  with the exception before it has opened a handle, and the world is as it was.
\<close>

theorem C3_handle_closed_iff_no_exception:
  "(read w fn ins inm ts = (r, w') \<and> dfsu_files w fn = Some f
      \<longrightarrow> map_option is_open (dfsu_files w' fn) = Some (isl r))
   \<and> (write w fn dat = (rw, dat', w'') \<and> dfsu_files w fn = Some f
      \<longrightarrow> map_option is_open (dfsu_files w'' fn) = Some (isl rw))
   \<and> (create w now mfn cfn dat st dt tu its title = (rc, datc, wc)
        \<and> mesh_files w mfn = Some mesh \<and> mesh_is_2d mesh \<and> cfn \<notin> unwritable w \<and> dat \<noteq> []
      \<longrightarrow> map_option is_open (dfsu_files wc cfn) = Some (isl rc))
   \<and> (create w now mfn cfn dat st dt tu its title = (rc, datc, wc)
        \<and> mesh_files w mfn = Some mesh \<and> \<not> mesh_is_2d mesh \<and> dat \<noteq> []
      \<longrightarrow> isl rc \<and> wc = w)"
  using read_handle [of w fn ins inm ts r w' f] write_handle [of w fn dat rw dat' w'' f]
    create_handle [of w mfn mesh cfn dat now st dt tu its title rc datc wc]
    create_not_2d [of w mfn mesh dat now cfn st dt tu its title]
  by auto

lemma ex_read: "read example_world ''square.dfsu'' None None None =
   (Inr \<lparr>ds_data = [[[Num 0], [Num 0]]], ds_time = [0, 1],
         ds_items = [\<lparr>name = ''Item 1'', itemtype = ItemUndefined, unit = UnitUndefined\<rparr>]\<rparr>,
    example_world\<lparr>dfsu_files := (dfsu_files example_world)(''square.dfsu'' \<mapsto> square_dfs)\<rparr>)"
  by (simp add: read_defs example_world_def square_dfs_def upt_rec Let_def)

lemma ex_write: "write example_world ''square.dfsu'' [[[Num 1], [NaN]]] =
   (Inr (), [[[Num 1], [Num (- 6968983 / 2 ^ 139)]]],
    example_world\<lparr>dfsu_files := (dfsu_files example_world)(''square.dfsu'' \<mapsto>
       square_dfs\<lparr>blocks := [[Num 1], [Num (- 6968983 / 2 ^ 139)]], position := Suc (Suc 0)\<rparr>)\<rparr>)"
  by (simp add: write_defs example_world_def square_dfs_def upt_rec Let_def)

lemma ex_create: "create example_world 0 ''square.mesh'' ''new.dfsu'' [[[Num 1], [NaN]]]
        None 1 SECOND None None =
   (Inr (), [[[Num 1], [Num (- 6968983 / 2 ^ 139)]]],
    example_world\<lparr>dfsu_files := (dfsu_files example_world)(''new.dfsu'' \<mapsto>
       \<lparr>FileType = Dfsu2D, Items = [ItemInfo_of_name ''temItem 1''],
        DeleteValueFloat = Num (- 6968983 / 2 ^ 139), StartDateTime = 0, TimeStepSeconds = 1,
        X = [0, 1, 1, 0], Y = [0, 0, 1, 1], Z = [0, 0, 0, 0], Code = [1, 1, 0, 0],
        ElementTable = [[1, 2, 3, 4]], WKTString = ''UTM-33'',
        blocks = [[Num 1], [Num (- 6968983 / 2 ^ 139)]], position = Suc (Suc 0), is_open = False\<rparr>)\<rparr>)"
  by (simp add: create_defs example_world_def square_mesh_def upt_rec Let_def)

theorem C3_handle_closed_iff_no_exception_witness:
  "dfsu_files example_world ''square.dfsu'' = Some square_dfs
   \<and> isl (fst (read example_world ''square.dfsu'' None None None)) = False
   \<and> map_option is_open (dfsu_files (snd (read example_world ''square.dfsu'' None None None))
        ''square.dfsu'') = Some False
   \<and> isl (fst (write example_world ''square.dfsu'' [[[Num 1], [NaN]]])) = False
   \<and> map_option is_open (dfsu_files (snd (snd (write example_world ''square.dfsu'' [[[Num 1], [NaN]]])))
        ''square.dfsu'') = Some False
   \<and> mesh_files example_world ''square.mesh'' = Some square_mesh
   \<and> mesh_is_2d square_mesh
   \<and> ''new.dfsu'' \<notin> unwritable example_world
   \<and> isl (fst (create example_world 0 ''square.mesh'' ''new.dfsu'' [[[Num 1], [NaN]]]
        None 1 SECOND None None)) = False
   \<and> map_option is_open (dfsu_files (snd (snd (create example_world 0 ''square.mesh'' ''new.dfsu''
        [[[Num 1], [NaN]]] None 1 SECOND None None))) ''new.dfsu'') = Some False"
proof -
  have f: "dfsu_files example_world ''square.dfsu'' = Some square_dfs"
    and m: "mesh_files example_world ''square.mesh'' = Some square_mesh"
    and u: "''new.dfsu'' \<notin> unwritable example_world"
    by (simp_all add: example_world_def)
  let ?r = "read example_world ''square.dfsu'' None None None"
  let ?w = "write example_world ''square.dfsu'' [[[Num 1], [NaN]]]"
  let ?c = "create example_world 0 ''square.mesh'' ''new.dfsu'' [[[Num 1], [NaN]]]
        None 1 SECOND None None"
  have c: "isl (fst ?c) = False" by (simp add: ex_create)
  have r: "isl (fst ?r) = False" by (simp add: ex_read)
  have w: "isl (fst ?w) = False" by (simp add: ex_write)
  note T = C3_handle_closed_iff_no_exception [of example_world "''square.dfsu''" None None None
        "fst ?r" "snd ?r" square_dfs "[[[Num 1], [NaN]]]" "fst ?w" "fst (snd ?w)" "snd (snd ?w)"
        0 "''square.mesh''" "''new.dfsu''" None 1 SECOND None None "fst ?c" "fst (snd ?c)"
        "snd (snd ?c)" square_mesh]
  have R: "map_option is_open (dfsu_files (snd ?r) ''square.dfsu'') = Some (isl (fst ?r))"
    using T f by simp
  have W: "map_option is_open (dfsu_files (snd (snd ?w)) ''square.dfsu'') = Some (isl (fst ?w))"
    using T f by simp
  have q: "mesh_is_2d square_mesh"
    by (simp add: mesh_is_2d_def elements_2d_def square_mesh_def)
  have C: "map_option is_open (dfsu_files (snd (snd ?c)) ''new.dfsu'') = Some (isl (fst ?c))"
    using T m u q by simp
  show ?thesis
    using f m u q r w c R W C by simp
qed

text \<open>
  C3 as stated fails: \<open>write\<close> with an empty data list on the example container
  (one item, two time steps) raises IndexError at \<^verbatim>\<open>data[item]\<close> and the handle it
  opened is still open afterwards.
\<close>

theorem C3_write_counterexample:
  "fst (write example_world ''square.dfsu'' []) = Inl IndexError
   \<and> map_option is_open (dfsu_files (snd (snd (write example_world ''square.dfsu'' [])))
        ''square.dfsu'') = Some True"
  by (simp add: write_defs example_world_def square_dfs_def upt_rec)


text \<open>
  C6: \<open>create\<close> on a mesh with an element that is neither a triangle nor a
  quadrilateral fails before a container is built. \<open>create\<close> has no test of its own:
  it declares the two-dimensional kind, and the storage provider raises when it is
  handed the element table. The exception leaves \<open>create\<close> before \<open>CreateFile\<close>, so
  no file is made, nothing is printed and the data is untouched.
\<close>

theorem C6_create_rejects_non_2d_mesh:
  assumes "mesh_files w mfn = Some mesh" and "\<not> mesh_is_2d mesh" and "dat \<noteq> []"
  shows "create w now mfn fn dat st dt tu its title = (Inl DfsError, dat, w)"
proof -
  have i0: "np_index dat 0 = Inr (dat ! 0)"
    using assms(3) by (simp add: np_index_def)
  have rm: "ReadMesh w mfn = Inr mesh"
    using assms(1) by (simp add: ReadMesh_def)
  have sb: "setup_builder (narrow w) mesh start dt l = Inl DfsError" for start l
    using assms(2)
    by (simp add: setup_builder_def DfsuBuilder_Create_def SetElements_def mesh_is_2d_def Let_def)
  show ?thesis
    by (simp add: create_def i0 rm sb Let_def)
qed

theorem C6_create_rejects_non_2d_mesh_witness:
  "mesh_files example_world ''prism.mesh'' = Some prism_mesh
   \<and> \<not> mesh_is_2d prism_mesh
   \<and> [[[Num 1]]] \<noteq> []
   \<and> create example_world 0 ''prism.mesh'' ''new.dfsu'' [[[Num 1]]] None 1 SECOND None None
        = (Inl DfsError, [[[Num 1]]], example_world)
   \<and> dfsu_files example_world ''new.dfsu'' = None"
proof -
  have m: "mesh_files example_world ''prism.mesh'' = Some prism_mesh"
    by (simp add: example_world_def)
  have q: "\<not> mesh_is_2d prism_mesh"
    by (simp add: mesh_is_2d_def elements_2d_def prism_mesh_def)
  have d: "[[[Num 1]]] \<noteq> ([] :: fl list list list)"
    by simp
  have n: "dfsu_files example_world ''new.dfsu'' = None"
    by (simp add: example_world_def)
  show ?thesis
    using m q n C6_create_rejects_non_2d_mesh [OF m q d, of 0 "''new.dfsu''" None 1 SECOND None None]
    by simp
qed

lemma write_steps_positions:
  assumes ws: "write_steps nw dv [0..<nt] n dat dfs = (None, dat', dfs')"
  shows "length dat' = length dat
    \<and> (\<forall>k<n. \<forall>i<nt. \<forall>j<length (dat ! k ! i).
          dat' ! k ! i ! j = (if isnan (dat ! k ! i ! j) then dv else dat ! k ! i ! j))
    \<and> ((\<exists>k<n. \<exists>i<nt. \<exists>j<length (dat ! k ! i). isnan (dat ! k ! i ! j)) \<and> \<not> isnan dv
          \<longrightarrow> dat' \<noteq> dat)"
proof -
  note R = write_steps_result [OF ws distinct_upt]
  have pos: "dat' ! k ! i ! j = (if isnan (dat ! k ! i ! j) then dv else dat ! k ! i ! j)"
    if k: "k < n" and i: "i < nt" and j: "j < length (dat ! k ! i)" for k i j
  proof -
    have ne: "[0..<nt] \<noteq> []" using i by simp
    have kl: "k < length dat" using R ne k by simp
    have il: "i < length (dat ! k)" using R k i by simp
    have "dat' ! k ! i = nan_to_delete dv (dat ! k ! i)"
      using R kl il k i by simp
    then show ?thesis using j by (simp add: nan_to_delete_def)
  qed
  have chg: "dat' \<noteq> dat"
    if "k < n" "i < nt" "j < length (dat ! k ! i)" "isnan (dat ! k ! i ! j)" "\<not> isnan dv" for k i j
  proof
    assume "dat' = dat"
    then have "dat ! k ! i ! j = dv" using pos [OF that(1-3)] that(4) by simp
    then show False using that(4,5) by simp
  qed
  show ?thesis using R pos chg by blast
qed

text \<open>
  C10: after \<open>write\<close> or \<open>create\<close> has returned normally, the caller's arrays hold
  the container's delete value at every position of the written rows (the rows of the
  container's time steps for \<open>write\<close>, all rows of the first array's length for
  \<open>create\<close>) that held NaN, and the other values of those rows as before; with a NaN
  among them and a delete value that is not NaN the arrays have changed.
\<close>

theorem C10_write_create_overwrite_nan:
  "(write w fn dat = (Inr u, dat', w') \<and> dfsu_files w fn = Some f \<longrightarrow>
      length dat' = length dat
      \<and> (\<forall>k<length (Items f). \<forall>i<NumberOfTimeSteps f. \<forall>j<length (dat ! k ! i).
            dat' ! k ! i ! j = (if isnan (dat ! k ! i ! j) then DeleteValueFloat f else dat ! k ! i ! j))
      \<and> ((\<exists>k<length (Items f). \<exists>i<NumberOfTimeSteps f. \<exists>j<length (dat ! k ! i).
              isnan (dat ! k ! i ! j)) \<and> \<not> isnan (DeleteValueFloat f) \<longrightarrow> dat' \<noteq> dat))
   \<and> (create w now mfn cfn dat st dt tu its title = (Inr u, datc, wc) \<longrightarrow>
      length datc = length dat
      \<and> (\<forall>k<length dat. \<forall>i<length (dat ! 0). \<forall>j<length (dat ! k ! i).
            datc ! k ! i ! j = (if isnan (dat ! k ! i ! j) then new_delete_value w else dat ! k ! i ! j))
      \<and> ((\<exists>k<length dat. \<exists>i<length (dat ! 0). \<exists>j<length (dat ! k ! i).
              isnan (dat ! k ! i ! j)) \<and> \<not> isnan (new_delete_value w) \<longrightarrow> datc \<noteq> dat))"
proof (rule conjI; rule impI)
  assume a: "write w fn dat = (Inr u, dat', w') \<and> dfsu_files w fn = Some f"
  from write_unfold [of w fn f dat] a obtain r1 d1 f1 where
    ws: "write_steps (narrow w) (DeleteValueFloat f) [0..<NumberOfTimeSteps f] (length (Items f)) dat
        (f\<lparr>position := 0, is_open := True\<rparr>) = (r1, d1, f1)"
    and w: "write w fn dat = (case r1 of Some e \<Rightarrow> (Inl e, d1, put_file w fn f1)
                           | None \<Rightarrow> (Inr (), d1, put_file w fn (Close f1)))"
    by blast
  have r1: "r1 = None" and d1: "d1 = dat'" using a w by (cases r1; simp)+
  show "length dat' = length dat
      \<and> (\<forall>k<length (Items f). \<forall>i<NumberOfTimeSteps f. \<forall>j<length (dat ! k ! i).
            dat' ! k ! i ! j = (if isnan (dat ! k ! i ! j) then DeleteValueFloat f else dat ! k ! i ! j))
      \<and> ((\<exists>k<length (Items f). \<exists>i<NumberOfTimeSteps f. \<exists>j<length (dat ! k ! i).
              isnan (dat ! k ! i ! j)) \<and> \<not> isnan (DeleteValueFloat f) \<longrightarrow> dat' \<noteq> dat)"
    by (rule write_steps_positions [OF ws [unfolded r1 d1]])
next
  assume a: "create w now mfn cfn dat st dt tu its title = (Inr u, datc, wc)"
  from create_success [OF a] obtain mesh where
    m: "mesh_files w mfn = Some mesh" and f: "cfn \<notin> unwritable w" and d: "dat \<noteq> []"
    and q: "mesh_is_2d mesh"
    by blast
  let ?nf = "new_file w mesh (case st of None \<Rightarrow> now | Some t \<Rightarrow> t) dt
           (case its of None \<Rightarrow> default_items (length dat) | Some l \<Rightarrow> l)"
  from create_unfold [OF m f d q, where st=st and now=now and dt=dt and its=its and tu=tu
      and title=title]
  obtain r1 d1 f1 where
    ws: "write_steps (narrow w) (new_delete_value w) [0..<length (dat ! 0)] (length dat) dat ?nf = (r1, d1, f1)"
    and c: "create w now mfn cfn dat st dt tu its title =
           (case r1 of Some e \<Rightarrow> (Inl e, d1, put_file w cfn f1)
            | None \<Rightarrow> (Inr (), d1, put_file w cfn (Close f1)))"
    by blast
  have r1: "r1 = None" and d1: "d1 = datc" using a c by (cases r1; simp)+
  show "length datc = length dat
      \<and> (\<forall>k<length dat. \<forall>i<length (dat ! 0). \<forall>j<length (dat ! k ! i).
            datc ! k ! i ! j = (if isnan (dat ! k ! i ! j) then new_delete_value w else dat ! k ! i ! j))
      \<and> ((\<exists>k<length dat. \<exists>i<length (dat ! 0). \<exists>j<length (dat ! k ! i).
              isnan (dat ! k ! i ! j)) \<and> \<not> isnan (new_delete_value w) \<longrightarrow> datc \<noteq> dat)"
    by (rule write_steps_positions [OF ws [unfolded r1 d1]])
qed

theorem C10_write_create_overwrite_nan_witness:
  "dfsu_files example_world ''square.dfsu'' = Some square_dfs
   \<and> fst (write example_world ''square.dfsu'' [[[Num 1], [NaN]]]) = Inr ()
   \<and> fst (snd (write example_world ''square.dfsu'' [[[Num 1], [NaN]]])) ! 0 ! 1 ! 0
        = DeleteValueFloat square_dfs
   \<and> fst (snd (write example_world ''square.dfsu'' [[[Num 1], [NaN]]])) \<noteq> [[[Num 1], [NaN]]]
   \<and> fst (create example_world 0 ''square.mesh'' ''new.dfsu'' [[[Num 1], [NaN]]]
        None 1 SECOND None None) = Inr ()
   \<and> fst (snd (create example_world 0 ''square.mesh'' ''new.dfsu'' [[[Num 1], [NaN]]]
        None 1 SECOND None None)) ! 0 ! 1 ! 0 = new_delete_value example_world
   \<and> fst (snd (create example_world 0 ''square.mesh'' ''new.dfsu'' [[[Num 1], [NaN]]]
        None 1 SECOND None None)) \<noteq> [[[Num 1], [NaN]]]"
proof -
  let ?D = "[[[Num 1], [NaN]]]"
  let ?w = "write example_world ''square.dfsu'' ?D"
  let ?c = "create example_world 0 ''square.mesh'' ''new.dfsu'' ?D None 1 SECOND None None"
  have f: "dfsu_files example_world ''square.dfsu'' = Some square_dfs"
    by (simp add: example_world_def)
  have w: "?w = (Inr (), fst (snd ?w), snd (snd ?w))" by (simp add: ex_write)
  have c: "?c = (Inr (), fst (snd ?c), snd (snd ?c))" by (simp add: ex_create)
  have sz: "0 < length (Items square_dfs)" "1 < NumberOfTimeSteps square_dfs"
    "\<not> isnan (DeleteValueFloat square_dfs)" "\<not> isnan (new_delete_value example_world)"
    by (simp_all add: square_dfs_def NumberOfTimeSteps_def example_world_def)
  have nan: "0 < length (?D ! 0 ! 1)" "isnan (?D ! 0 ! 1 ! 0)" "0 < length ?D" "1 < length (?D ! 0)"
    by simp_all
  note T = C10_write_create_overwrite_nan [of example_world "''square.dfsu''" ?D "()"
      "fst (snd ?w)" "snd (snd ?w)" square_dfs 0 "''square.mesh''" "''new.dfsu''" None 1 SECOND
      None None "fst (snd ?c)" "snd (snd ?c)"]
  have W: "(\<forall>k<length (Items square_dfs). \<forall>i<NumberOfTimeSteps square_dfs. \<forall>j<length (?D ! k ! i).
            fst (snd ?w) ! k ! i ! j
              = (if isnan (?D ! k ! i ! j) then DeleteValueFloat square_dfs else ?D ! k ! i ! j))"
    and W2: "(\<exists>k<length (Items square_dfs). \<exists>i<NumberOfTimeSteps square_dfs. \<exists>j<length (?D ! k ! i).
              isnan (?D ! k ! i ! j)) \<and> \<not> isnan (DeleteValueFloat square_dfs) \<longrightarrow> fst (snd ?w) \<noteq> ?D"
    using T w f by blast+
  have C: "(\<forall>k<length ?D. \<forall>i<length (?D ! 0). \<forall>j<length (?D ! k ! i).
            fst (snd ?c) ! k ! i ! j
              = (if isnan (?D ! k ! i ! j) then new_delete_value example_world else ?D ! k ! i ! j))"
    and C2: "(\<exists>k<length ?D. \<exists>i<length (?D ! 0). \<exists>j<length (?D ! k ! i).
              isnan (?D ! k ! i ! j)) \<and> \<not> isnan (new_delete_value example_world) \<longrightarrow> fst (snd ?c) \<noteq> ?D"
    using T c by blast+
  have w1: "fst (snd ?w) ! 0 ! 1 ! 0 = DeleteValueFloat square_dfs"
    using W sz(1,2) nan(1,2) by (metis (full_types))
  have c1: "fst (snd ?c) ! 0 ! 1 ! 0 = new_delete_value example_world"
    using C nan by (metis (full_types))
  have w2: "fst (snd ?w) \<noteq> ?D" using W2 sz nan by blast
  have c2: "fst (snd ?c) \<noteq> ?D" using C2 sz nan by blast
  show ?thesis using f w c w1 c1 w2 c2 by (metis fst_conv)
qed

subsection \<open>Element areas\<close>

lemma np_index_node:
  "1 \<le> nd \<Longrightarrow> nd \<le> int (length xs) \<Longrightarrow> np_index xs (nd - 1) = Inr (xs ! nat (nd - 1))"
  by (simp add: np_index_def)

lemma fill_coords_tri:
  assumes "\<forall>nd \<in> set [a, b, c]. 1 \<le> nd \<and> nd \<le> int (length xn)" and "length yn = length xn"
  shows "fill_coords xn yn [a, b, c] 0 ([x0, x1, x2, x3], [y0, y1, y2, y3]) =
     Inr ([xn ! nat (a - 1), xn ! nat (b - 1), xn ! nat (c - 1), x3],
          [yn ! nat (a - 1), yn ! nat (b - 1), yn ! nat (c - 1), y3])"
  using assms by (simp add: np_index_node np_store_def Let_def)

lemma fill_coords_quad:
  assumes "\<forall>nd \<in> set [a, b, c, d]. 1 \<le> nd \<and> nd \<le> int (length xn)" and "length yn = length xn"
  shows "fill_coords xn yn [a, b, c, d] 0 ([x0, x1, x2, x3], [y0, y1, y2, y3]) =
     Inr ([xn ! nat (a - 1), xn ! nat (b - 1), xn ! nat (c - 1), xn ! nat (d - 1)],
          [yn ! nat (a - 1), yn ! nat (b - 1), yn ! nat (c - 1), yn ! nat (d - 1)])"
  using assms by (simp add: np_index_node np_store_def Let_def)

lemma abs_half_cong: "p = q \<Longrightarrow> \<bar>0.5 * p\<bar> = \<bar>1 / 2 * (q::real)\<bar>"
  by simp

lemma signed_area_tri:
  assumes "signed_area geo 3 [ax, bx, cx, x3] [ay, by, cy, y3] = Inr s"
  shows "\<bar>s\<bar> = spec_element_area geo [(ax, ay), (bx, by), (cx, cy)]"
proof (cases geo)
  case True
  define K where "K = earth_radius * deg_to_rad"
  define C where "C = cos ((ay + by + cy) / 3 * deg_to_rad)"
  have s: "s = 0.5 * (K * (bx - ax) * C * (K * (cy - ay)) - K * (by - ay) * (K * (cx - ax) * C))"
    using assms True by (simp add: signed_area_def Let_def K_def C_def add.assoc)
  have sx: "x_scale True [(ax, ay), (bx, by), (cx, cy)] = K * C"
    by (simp add: x_scale_def K_def C_def earth_radius_def deg_to_rad_def add.assoc)
  have sy: "y_scale True = K"
    by (simp add: y_scale_def K_def earth_radius_def deg_to_rad_def)
  have spec: "spec_element_area True [(ax, ay), (bx, by), (cx, cy)] =
      \<bar>1 / 2 * (K * C * (bx - ax) * (K * (cy - ay)) - K * (by - ay) * (K * C * (cx - ax)))\<bar>"
    by (simp add: sx sy Let_def edge_def triangle_term_def)
  have "s = 1 / 2 * (K * C * (bx - ax) * (K * (cy - ay)) - K * (by - ay) * (K * C * (cx - ax)))"
    unfolding s by (simp add: algebra_simps)
  then show ?thesis using True spec by simp
next
  case False
  have s: "s = 0.5 * ((bx - ax) * (cy - ay) - (by - ay) * (cx - ax))"
    using assms False by (simp add: signed_area_def Let_def)
  show ?thesis
    unfolding s using False
    by (simp add: x_scale_def y_scale_def Let_def edge_def triangle_term_def)
qed

lemma signed_area_quad:
  assumes "signed_area geo 4 [ax, bx, cx, dx] [ay, by, cy, dy] = Inr s"
  shows "\<bar>s\<bar> = spec_element_area geo [(ax, ay), (bx, by), (cx, cy), (dx, dy)]"
proof (cases geo)
  case True
  define K where "K = earth_radius * deg_to_rad"
  define C where "C = cos ((ay + by + cy + dy) / 4 * deg_to_rad)"
  have s: "s = 0.5 * (K * (bx - ax) * C * (K * (cy - ay)) - K * (by - ay) * (K * (cx - ax) * C))
             + 0.5 * (K * (cx - ax) * C * (K * (dy - ay)) - K * (cy - ay) * (K * (dx - ax) * C))"
    using assms True by (simp add: signed_area_def Let_def K_def C_def add.assoc)
  have sx: "x_scale True [(ax, ay), (bx, by), (cx, cy), (dx, dy)] = K * C"
    by (simp add: x_scale_def K_def C_def earth_radius_def deg_to_rad_def add.assoc)
  have sy: "y_scale True = K"
    by (simp add: y_scale_def K_def earth_radius_def deg_to_rad_def)
  have spec: "spec_element_area True [(ax, ay), (bx, by), (cx, cy), (dx, dy)] =
      \<bar>1 / 2 * (K * C * (bx - ax) * (K * (cy - ay)) - K * (by - ay) * (K * C * (cx - ax)))
       + 1 / 2 * (K * C * (cx - ax) * (K * (dy - ay)) - K * (cy - ay) * (K * C * (dx - ax)))\<bar>"
    by (simp add: sx sy Let_def edge_def triangle_term_def)
  have "s = 1 / 2 * (K * C * (bx - ax) * (K * (cy - ay)) - K * (by - ay) * (K * C * (cx - ax)))
       + 1 / 2 * (K * C * (cx - ax) * (K * (dy - ay)) - K * (cy - ay) * (K * C * (dx - ax)))"
    unfolding s by (simp add: algebra_simps)
  then show ?thesis using True spec by simp
next
  case False
  have s: "s = 0.5 * ((bx - ax) * (cy - ay) - (by - ay) * (cx - ax))
             + 0.5 * ((cx - ax) * (dy - ay) - (cy - ay) * (dx - ax))"
    using assms False by (simp add: signed_area_def Let_def)
  show ?thesis
    unfolding s using False
    by (simp add: x_scale_def y_scale_def Let_def edge_def triangle_term_def)
qed

lemma signed_area_total: "0 < n \<Longrightarrow> \<exists>s. signed_area geo n xc yc = Inr s"
  by (simp add: signed_area_def Let_def)


lemma list_of_length_4: "length xs = 4 \<Longrightarrow> \<exists>a b c d. xs = [a, b, c, d]"
  by (auto simp: length_Suc_conv numeral_eq_Suc)

lemma list_of_length_3: "length xs = 3 \<Longrightarrow> \<exists>a b c. xs = [a, b, c]"
  by (auto simp: length_Suc_conv numeral_eq_Suc)

lemma element_step:
  assumes wf: "element_wf (length xn) e" and len: "length yn = length xn"
    and bufs: "length xc = 4" "length yc = 4"
  shows "\<exists>xc' yc' s. fill_coords xn yn e 0 (xc, yc) = Inr (xc', yc')
           \<and> length xc' = 4 \<and> length yc' = 4
           \<and> signed_area geo (length e) xc' yc' = Inr s
           \<and> \<bar>s\<bar> = spec_element_area geo (map (\<lambda>nd. (xn ! nat (nd - 1), yn ! nat (nd - 1))) e)"
proof -
  from bufs obtain x0 x1 x2 x3 y0 y1 y2 y3 where
    xc: "xc = [x0, x1, x2, x3]" and yc: "yc = [y0, y1, y2, y3]"
    using list_of_length_4 by metis
  from wf consider (tri) "length e = 3" | (quad) "length e = 4"
    by (auto simp: element_wf_def)
  then show ?thesis
  proof cases
    case tri
    then obtain a b c where e: "e = [a, b, c]" using list_of_length_3 by blast
    have v: "\<forall>nd \<in> set [a, b, c]. 1 \<le> nd \<and> nd \<le> int (length xn)"
      using wf by (simp add: element_wf_def e)
    note F = fill_coords_tri [OF v len, of x0 x1 x2 x3 y0 y1 y2 y3]
    obtain s where s: "signed_area geo 3 [xn ! nat (a - 1), xn ! nat (b - 1), xn ! nat (c - 1), x3]
          [yn ! nat (a - 1), yn ! nat (b - 1), yn ! nat (c - 1), y3] = Inr s"
      by (meson signed_area_total zero_less_numeral)
    have 1: "fill_coords xn yn e 0 (xc, yc) =
        Inr ([xn ! nat (a - 1), xn ! nat (b - 1), xn ! nat (c - 1), x3],
             [yn ! nat (a - 1), yn ! nat (b - 1), yn ! nat (c - 1), y3])"
      unfolding e xc yc by (rule F)
    have 2: "signed_area geo (length e) [xn ! nat (a - 1), xn ! nat (b - 1), xn ! nat (c - 1), x3]
          [yn ! nat (a - 1), yn ! nat (b - 1), yn ! nat (c - 1), y3] = Inr s"
      unfolding tri by (rule s)
    have 3: "\<bar>s\<bar> = spec_element_area geo (map (\<lambda>nd. (xn ! nat (nd - 1), yn ! nat (nd - 1))) e)"
      unfolding e list.map by (rule signed_area_tri [OF s])
    show ?thesis
      by (intro exI conjI, rule 1, simp, simp, rule 2, rule 3)
  next
    case quad
    then obtain a b c d where e: "e = [a, b, c, d]" using list_of_length_4 by blast
    have v: "\<forall>nd \<in> set [a, b, c, d]. 1 \<le> nd \<and> nd \<le> int (length xn)"
      using wf by (simp add: element_wf_def e)
    note F = fill_coords_quad [OF v len, of x0 x1 x2 x3 y0 y1 y2 y3]
    obtain s where s: "signed_area geo 4 [xn ! nat (a - 1), xn ! nat (b - 1), xn ! nat (c - 1), xn ! nat (d - 1)]
          [yn ! nat (a - 1), yn ! nat (b - 1), yn ! nat (c - 1), yn ! nat (d - 1)] = Inr s"
      by (meson signed_area_total zero_less_numeral)
    have 1: "fill_coords xn yn e 0 (xc, yc) =
        Inr ([xn ! nat (a - 1), xn ! nat (b - 1), xn ! nat (c - 1), xn ! nat (d - 1)],
             [yn ! nat (a - 1), yn ! nat (b - 1), yn ! nat (c - 1), yn ! nat (d - 1)])"
      unfolding e xc yc by (rule F)
    have 2: "signed_area geo (length e)
          [xn ! nat (a - 1), xn ! nat (b - 1), xn ! nat (c - 1), xn ! nat (d - 1)]
          [yn ! nat (a - 1), yn ! nat (b - 1), yn ! nat (c - 1), yn ! nat (d - 1)] = Inr s"
      unfolding quad by (rule s)
    have 3: "\<bar>s\<bar> = spec_element_area geo (map (\<lambda>nd. (xn ! nat (nd - 1), yn ! nat (nd - 1))) e)"
      unfolding e list.map by (rule signed_area_quad [OF s])
    show ?thesis
      by (intro exI conjI, rule 1, simp, simp, rule 2, rule 3)
  qed
qed

lemma area_loop_wf:
  assumes "\<forall>e \<in> set es. element_wf (length xn) e" and "length yn = length xn"
    and "length xc = 4" and "length yc = 4"
  shows "\<exists>area. area_loop geo xn yn es (xc, yc) = Inr area
           \<and> map abs area
              = map (\<lambda>e. spec_element_area geo (map (\<lambda>nd. (xn ! nat (nd - 1), yn ! nat (nd - 1))) e)) es"
  using assms
proof (induction es arbitrary: xc yc)
  case Nil
  then show ?case by simp
next
  case (Cons e es)
  have wf: "element_wf (length xn) e" using Cons.prems(1) by simp
  from element_step [OF wf Cons.prems(2) Cons.prems(3) Cons.prems(4), of geo]
  obtain xc' yc' s where
    f: "fill_coords xn yn e 0 (xc, yc) = Inr (xc', yc')" and l: "length xc' = 4" "length yc' = 4"
    and sa: "signed_area geo (length e) xc' yc' = Inr s"
    and sp: "\<bar>s\<bar> = spec_element_area geo (map (\<lambda>nd. (xn ! nat (nd - 1), yn ! nat (nd - 1))) e)"
    by blast
  have rest: "\<forall>e \<in> set es. element_wf (length xn) e" using Cons.prems(1) by simp
  from Cons.IH [OF rest Cons.prems(2) l] obtain area where
    a: "area_loop geo xn yn es (xc', yc') = Inr area"
    and m: "map abs area
              = map (\<lambda>e. spec_element_area geo (map (\<lambda>nd. (xn ! nat (nd - 1), yn ! nat (nd - 1))) e)) es"
    by blast
  show ?case using f sa sp a m by simp
qed

text \<open>
  C2: on a well-formed mesh \<open>get_element_area\<close> returns, whatever the uninitialised
  buffers hold, one value per element: the absolute value of the signed area in the
  spec's words, with the geographic scaling when the mesh is geographic; every value
  is non-negative.
\<close>

theorem C2_get_element_area:
  assumes "elements_wf dfs"
  shows "get_element_area junk dfs =
           Inr (map (\<lambda>e. spec_element_area (is_geo dfs) (map (node_xy dfs) e)) (ElementTable dfs))
       \<and> length (map (\<lambda>e. spec_element_area (is_geo dfs) (map (node_xy dfs) e)) (ElementTable dfs))
           = NumberOfElements dfs
       \<and> (\<forall>e \<in> set (ElementTable dfs). 0 \<le> spec_element_area (is_geo dfs) (map (node_xy dfs) e))"
proof -
  have wf: "\<forall>e \<in> set (ElementTable dfs). element_wf (length (X dfs)) e"
    and len: "length (Y dfs) = length (X dfs)"
    using assms by (auto simp: elements_wf_def element_wf_def)
  from area_loop_wf [OF wf len, of "map junk [0..<4]" "map junk [4..<8]" "is_geo dfs"]
  obtain area where
    a: "area_loop (is_geo dfs) (X dfs) (Y dfs) (ElementTable dfs) (map junk [0..<4], map junk [4..<8])
          = Inr area"
    and m: "map abs area = map (\<lambda>e. spec_element_area (is_geo dfs)
               (map (\<lambda>nd. (X dfs ! nat (nd - 1), Y dfs ! nat (nd - 1))) e)) (ElementTable dfs)"
    by auto
  have nn: "0 \<le> spec_element_area geo pts" for geo pts
    by (cases "(geo, pts)" rule: spec_element_area.cases) (simp_all add: Let_def)
  have nx: "node_xy dfs = (\<lambda>nd. (X dfs ! nat (nd - 1), Y dfs ! nat (nd - 1)))"
    by (rule ext) (simp add: node_xy_def)
  have "get_element_area junk dfs = Inr (map abs area)"
    using a by (simp add: get_element_area_def Let_def)
  then show ?thesis
    using m nn by (simp add: nx NumberOfElements_def)
qed

theorem C2_get_element_area_witness:
  "elements_wf square_dfs \<and> get_element_area (\<lambda>i. 0) square_dfs = Inr [1]"
proof -
  have wf: "elements_wf square_dfs"
    by (simp add: elements_wf_def square_dfs_def)
  have v: "map (\<lambda>e. spec_element_area (is_geo square_dfs) (map (node_xy square_dfs) e))
             (ElementTable square_dfs) = [1]"
    by (simp add: square_dfs_def is_geo_def node_xy_def x_scale_def y_scale_def edge_def
        triangle_term_def Let_def)
  show ?thesis using wf v C2_get_element_area [OF wf, of "\<lambda>i. 0"] by simp
qed

subsection \<open>The nearest element\<close>

lemma strip_coords: "get_element_coords strip_dfs =
  Inr [(1/2, 1/2, 0), (3/2, 1/2, 0), (5/2, 1/2, 0), (7/2, 1/2, 0), (9/2, 1/2, 0), (11/2, 1/2, 0),
       (13/2, 1/2, 0), (15/2, 1/2, 0), (17/2, 1/2, 0), (19/2, 1/2, 0), (21/2, 1/2, 0),
       (23/2, 1/2, 0), (25/2, 1/2, 0), (27/2, 1/2, 0), (29/2, 1/2, 0), (31/2, 1/2, 0),
       (33/2, 1/2, 0), (35/2, 1/2, 0)]"
  by (simp add: get_element_coords_def strip_dfs_def np_index_def mean_def Let_def upt_rec
      numeral_eq_Suc)

lemma strip_closest: "find_closest_element_index argsort_rev strip_dfs 8 (1/2) None = Inr 8"
  by (simp add: find_closest_element_index_def strip_coords sq_dist2_def argsort_rev_def
      np_index_def upt_rec power2_eq_square)


lemma is_argsort_stable: "is_argsort argsort_stable"
  by (simp add: is_argsort_def argsort_stable_def)

lemma is_argsort_rev: "is_argsort argsort_rev"
  by (simp add: is_argsort_def argsort_rev_def)

lemma gather_coords_wf:
  assumes "\<forall>nd \<in> set nodes. 1 \<le> nd \<and> nd \<le> int (length xn)"
    and "length yn = length xn" and "length zn = length xn"
  shows "gather_coords xn yn zn nodes =
     Inr (map (\<lambda>nd. xn ! nat (nd - 1)) nodes, map (\<lambda>nd. yn ! nat (nd - 1)) nodes,
          map (\<lambda>nd. zn ! nat (nd - 1)) nodes)"
  using assms by (induction nodes) (simp_all add: np_index_node Let_def)

lemma coords_loop_wf:
  assumes "\<forall>e \<in> set es. e \<noteq> [] \<and> (\<forall>nd \<in> set e. 1 \<le> nd \<and> nd \<le> int (length (X dfs)))"
    and "length (Y dfs) = length (X dfs)" and "length (Z dfs) = length (X dfs)"
  shows "coords_loop (X dfs) (Y dfs) (Z dfs) es = Inr (map (centroid dfs) es)"
  using assms
proof (induction es)
  case Nil
  then show ?case by simp
next
  case (Cons e es)
  have v: "\<forall>nd \<in> set e. 1 \<le> nd \<and> nd \<le> int (length (X dfs))" and ne: "e \<noteq> []"
    using Cons.prems(1) by simp_all
  have g: "gather_coords (X dfs) (Y dfs) (Z dfs) e =
     Inr (map (\<lambda>nd. X dfs ! nat (nd - 1)) e, map (\<lambda>nd. Y dfs ! nat (nd - 1)) e,
          map (\<lambda>nd. Z dfs ! nat (nd - 1)) e)"
    by (rule gather_coords_wf [OF v Cons.prems(2) Cons.prems(3)])
  have rest: "coords_loop (X dfs) (Y dfs) (Z dfs) es = Inr (map (centroid dfs) es)"
    using Cons by simp
  show ?case
    using ne by (simp add: g rest mean_def centroid_def)
qed

lemma get_element_coords_wf:
  assumes "mesh_wf dfs"
  shows "get_element_coords dfs = Inr (map (centroid dfs) (ElementTable dfs))"
proof -
  have "\<forall>e \<in> set (ElementTable dfs). e \<noteq> [] \<and> (\<forall>nd \<in> set e. 1 \<le> nd \<and> nd \<le> int (length (X dfs)))"
    using assms by (auto simp: mesh_wf_def elements_wf_def)
  then show ?thesis
    using assms coords_loop_wf [of "ElementTable dfs" dfs]
    by (simp add: get_element_coords_def mesh_wf_def elements_wf_def)
qed

lemma argsort_first_minimal:
  assumes a: "is_argsort argsort" and ne: "d \<noteq> []"
  shows "\<exists>idx. np_index (argsort d) 0 = Inr idx \<and> idx < length d \<and> (\<forall>j<length d. d ! idx \<le> d ! j)"
proof -
  have ms: "mset (argsort d) = mset [0..<length d]"
    and so: "sorted (map (\<lambda>i. d ! i) (argsort d))"
    using a by (simp_all add: is_argsort_def)
  have st: "set (argsort d) = {0..<length d}"
    using ms by (metis mset_eq_setD set_upt)
  then obtain i rest where p: "argsort d = i # rest"
    using ne by (cases "argsort d") auto
  have i: "i < length d" using st p by auto
  have le: "d ! i \<le> d ! j" if "j < length d" for j
  proof -
    have "j \<in> set (i # rest)" using st p that by auto
    then show ?thesis using so p by auto
  qed
  have "np_index (argsort d) 0 = Inr i" by (simp add: p np_index_def)
  then show ?thesis using i le by blast
qed

text \<open>
  C7, amended: on a well-formed mesh with at least one element, for every sorting
  function that meets what numpy documents of \<open>argsort\<close>,
  \<open>find_closest_element_index\<close> returns the index of an element whose centroid has
  the least squared distance to the query point, in the plane without \<open>z\<close> and in
  space with it. Which of several nearest elements is returned is left to the sort.
\<close>

theorem C7_find_closest_element_index:
  assumes "is_argsort argsort" and "mesh_wf dfs" and "ElementTable dfs \<noteq> []"
  shows "\<exists>idx. find_closest_element_index argsort dfs x y z = Inr idx
            \<and> idx < NumberOfElements dfs
            \<and> (\<forall>j<NumberOfElements dfs.
                  sq_dist x y z (centroid dfs (ElementTable dfs ! idx))
                    \<le> sq_dist x y z (centroid dfs (ElementTable dfs ! j)))"
proof -
  let ?ec = "map (centroid dfs) (ElementTable dfs)"
  let ?d = "map (sq_dist x y z) ?ec"
  have ec: "get_element_coords dfs = Inr ?ec"
    by (rule get_element_coords_wf [OF assms(2)])
  have ne: "?d \<noteq> []" using assms(3) by simp
  from argsort_first_minimal [OF assms(1) ne] obtain idx where
    i: "np_index (argsort ?d) 0 = Inr idx" and l: "idx < length ?d"
    and m: "\<forall>j<length ?d. ?d ! idx \<le> ?d ! j"
    by blast
  have fn2: "sq_dist x y None = sq_dist2 x y"
    by (rule ext) (simp add: sq_dist_def)
  have fn3: "sq_dist x y (Some z') = sq_dist3 x y z'" for z'
    by (rule ext) (simp add: sq_dist_def)
  have f: "find_closest_element_index argsort dfs x y z = Inr idx"
  proof (cases z)
    case None
    show ?thesis
      using i unfolding None fn2 by (simp add: find_closest_element_index_def ec)
  next
    case (Some z')
    show ?thesis
      using i unfolding Some fn3 by (simp add: find_closest_element_index_def ec)
  qed
  have n: "length ?d = NumberOfElements dfs" by (simp add: NumberOfElements_def)
  have "sq_dist x y z (centroid dfs (ElementTable dfs ! idx))
          \<le> sq_dist x y z (centroid dfs (ElementTable dfs ! j))" if "j < NumberOfElements dfs" for j
    using m l that n by (auto simp: NumberOfElements_def)
  then show ?thesis using f l n by auto
qed

theorem C7_find_closest_element_index_witness:
  "is_argsort argsort_stable \<and> mesh_wf square_dfs \<and> ElementTable square_dfs \<noteq> []
   \<and> (\<exists>idx. find_closest_element_index argsort_stable square_dfs 3 4 None = Inr idx
         \<and> idx < NumberOfElements square_dfs
         \<and> (\<forall>j<NumberOfElements square_dfs.
               sq_dist 3 4 None (centroid square_dfs (ElementTable square_dfs ! idx))
                 \<le> sq_dist 3 4 None (centroid square_dfs (ElementTable square_dfs ! j))))"
proof -
  have wf: "mesh_wf square_dfs"
    by (simp add: mesh_wf_def elements_wf_def square_dfs_def)
  have ne: "ElementTable square_dfs \<noteq> []"
    by (simp add: square_dfs_def)
  show ?thesis
    using is_argsort_stable wf ne
      C7_find_closest_element_index [OF is_argsort_stable wf ne, of 3 4 None]
    by blast
qed

text \<open>
  C7 as stated fails: on the strip, the centroids of elements 7 and 8 are equally
  near to the point (8, 1/2), and with a sort that meets \<open>is_argsort\<close> the index
  returned is 8, not the lowest.
\<close>

theorem C7_tie_counterexample:
  "is_argsort argsort_rev \<and> mesh_wf strip_dfs
   \<and> find_closest_element_index argsort_rev strip_dfs 8 (1/2) None = Inr 8
   \<and> sq_dist 8 (1/2) None (centroid strip_dfs (ElementTable strip_dfs ! 7)) = 1/4
   \<and> sq_dist 8 (1/2) None (centroid strip_dfs (ElementTable strip_dfs ! 8)) = 1/4"
proof -
  have wf: "mesh_wf strip_dfs"
    by (simp add: mesh_wf_def elements_wf_def strip_dfs_def)
  have d: "sq_dist 8 (1/2) None (centroid strip_dfs (ElementTable strip_dfs ! 7)) = 1/4"
    "sq_dist 8 (1/2) None (centroid strip_dfs (ElementTable strip_dfs ! 8)) = 1/4"
    by (simp_all add: sq_dist_def sq_dist2_def centroid_def strip_dfs_def power2_eq_square
        nth_append)
  show ?thesis using is_argsort_rev wf strip_closest d by simp
qed

subsection \<open>The shape of a Dataset\<close>

lemma assign_row_shape:
  "assign_row arr i d = Inr arr' \<Longrightarrow> map length arr' = map length arr"
  by (auto simp: assign_row_def Let_def map_update list_update_same_conv split: if_splits)

lemma read_items_shape:
  "read_items dfs nums off i it its (dl, idt) = Inr (dl', idt') \<Longrightarrow>
     map (map length) dl' = map (map length) dl"
proof (induction its arbitrary: dl idt)
  case Nil
  then show ?case by simp
next
  case (Cons k its)
  from Cons.prems obtain itd arr arr' where
    a: "np_index dl (int k) = Inr arr"
    and b: "assign_row arr i (delete_to_nan (DeleteValueFloat dfs) (to_numpy (Data itd))) = Inr arr'"
    and c: "read_items dfs nums off i it its (dl[k := arr'], Some itd) = Inr (dl', idt')"
    by (auto simp: Let_def split: sum.splits)
  have k: "k < length dl" and arr: "arr = dl ! k"
    using a by (auto simp: np_index_nat_Inr)
  have "map (map length) (dl[k := arr']) = map (map length) dl"
    using assign_row_shape [OF b] k arr by (simp add: map_update list_update_same_conv)
  then show ?case using Cons.IH [OF c] by simp
qed

lemma read_steps_shape:
  "read_steps dfs nums off n ts steps (dl, tsec, idt) = Inr (dl', tsec') \<Longrightarrow>
     map (map length) dl' = map (map length) dl \<and> length tsec' = length tsec"
proof (induction steps arbitrary: dl tsec idt)
  case Nil
  then show ?case by simp
next
  case (Cons i steps)
  from Cons.prems obtain it dl1 itd tsec1 where
    a: "read_items dfs nums off i it [0..<n] (dl, idt) = Inr (dl1, Some itd)"
    and b: "np_store tsec i (Time itd) = Inr tsec1"
    and c: "read_steps dfs nums off n ts steps (dl1, tsec1, Some itd) = Inr (dl', tsec')"
    by (auto split: sum.splits option.splits)
  have "length tsec1 = length tsec"
    using b by (auto simp: np_store_def split: if_splits)
  then show ?case
    using read_items_shape [OF a] Cons.IH [OF c] by simp
qed

lemma get_item_info_length:
  "get_item_info dfs nums = Inr infos \<Longrightarrow> length infos = length nums"
  by (induction nums arbitrary: infos) (auto split: if_splits sum.splits)

lemma read_selected_shape:
  assumes "read_selected dfs nums off n ts = Inr ds"
  shows "map (map length) (ds_data ds) = replicate n (replicate (length ts) (NumberOfElements dfs))
       \<and> length (ds_time ds) = length ts \<and> length (ds_items ds) = length nums"
proof -
  let ?dl = "replicate n (replicate (length ts) (replicate (NumberOfElements dfs) NaN))"
  from assms obtain dl tsec infos where
    a: "read_steps dfs nums off n ts [0..<length ts] (?dl, replicate (length ts) 0, None) = Inr (dl, tsec)"
    and b: "get_item_info dfs nums = Inr infos"
    and c: "ds = \<lparr>ds_data = dl, ds_time = map (\<lambda>tsec. StartDateTime dfs + tsec) tsec, ds_items = infos\<rparr>"
    by (auto simp: read_selected_def Let_def split: sum.splits)
  show ?thesis
    using read_steps_shape [OF a] get_item_info_length [OF b] by (simp add: c)
qed

lemma read_opened_shape:
  assumes "read_opened dfs ins inm ts = Inr ds"
  shows "length (ds_items ds) = length (ds_data ds)
       \<and> (\<forall>a \<in> set (ds_data ds). length a = length (ds_time ds)
             \<and> (\<forall>row \<in> set a. length row = NumberOfElements dfs))
       \<and> length (ds_time ds) = (case ts of None \<Rightarrow> NumberOfTimeSteps dfs | Some l \<Rightarrow> length l)"
proof -
  let ?n_items = "(if is_3d dfs then safe_length (Items dfs) - 1 else safe_length (Items dfs))"
  from assms obtain sel where
    r0: "read_selected dfs
           (case sel of None \<Rightarrow> map int [0..<nat ?n_items] | Some ns \<Rightarrow> ns)
           (if is_3d dfs then 1 else 0)
           (case sel of None \<Rightarrow> nat ?n_items | Some ns \<Rightarrow> length ns)
           (case ts of None \<Rightarrow> map int [0..<NumberOfTimeSteps dfs] | Some l \<Rightarrow> l) = Inr ds"
    by (auto simp: read_opened_def Let_def split: sum.splits)
  define nums where "nums = (case sel of None \<Rightarrow> map int [0..<nat ?n_items] | Some ns \<Rightarrow> ns)"
  define n where "n = (case sel of None \<Rightarrow> nat ?n_items | Some ns \<Rightarrow> length ns)"
  define tl where "tl = (case ts of None \<Rightarrow> map int [0..<NumberOfTimeSteps dfs] | Some l \<Rightarrow> l)"
  have r: "read_selected dfs nums (if is_3d dfs then 1 else 0) n tl = Inr ds"
    using r0 by (simp add: nums_def n_def tl_def)
  have n: "n = length nums"
    by (cases sel) (simp_all add: nums_def n_def)
  have tl: "length tl = (case ts of None \<Rightarrow> NumberOfTimeSteps dfs | Some l \<Rightarrow> length l)"
    by (cases ts) (simp_all add: tl_def)
  note S = read_selected_shape [OF r]
  have sh: "map (map length) (ds_data ds) = replicate n (replicate (length tl) (NumberOfElements dfs))"
    using S by simp
  have l: "length (ds_data ds) = n"
    using arg_cong [OF sh, of length] by simp
  have rows: "length a = length tl \<and> (\<forall>row \<in> set a. length row = NumberOfElements dfs)"
    if "a \<in> set (ds_data ds)" for a
  proof -
    have "map length a \<in> set (map (map length) (ds_data ds))" using that by simp
    then have e: "map length a = replicate (length tl) (NumberOfElements dfs)"
      unfolding sh by auto
    have "length a = length tl" using arg_cong [OF e, of length] by simp
    moreover have "length row = NumberOfElements dfs" if "row \<in> set a" for row
    proof -
      have "length row \<in> set (map length a)" using that by simp
      then show ?thesis unfolding e by auto
    qed
    ultimately show ?thesis by blast
  qed
  show ?thesis using S l n tl rows by simp
qed

text \<open>
  C9: in every Dataset that \<open>read\<close> returns there are as many item descriptors as data
  arrays, every data array has one row per time of the Dataset and every row has one
  cell per element of the container, and there are as many times as selected time
  steps (all time steps of the container when none are selected).
\<close>

theorem C9_read_shape:
  assumes "read w fn ins inm ts = (Inr ds, w')" and "dfsu_files w fn = Some f"
  shows "length (ds_items ds) = length (ds_data ds)
       \<and> (\<forall>a \<in> set (ds_data ds). length a = length (ds_time ds)
             \<and> (\<forall>row \<in> set a. length row = NumberOfElements f))
       \<and> length (ds_time ds) = (case ts of None \<Rightarrow> NumberOfTimeSteps f | Some l \<Rightarrow> length l)"
proof -
  let ?dfs = "f\<lparr>position := 0, is_open := True\<rparr>"
  have "read_opened ?dfs ins inm ts = Inr ds"
    using assms by (auto simp: read_def DfsuFile_Open_def split: sum.splits)
  from read_opened_shape [OF this] show ?thesis
    by (cases ts) (simp_all add: NumberOfElements_def NumberOfTimeSteps_def)
qed


theorem C9_read_shape_witness:
  "dfsu_files example_world ''square.dfsu'' = Some square_dfs
   \<and> fst (read example_world ''square.dfsu'' None None (Some [1])) =
        Inr \<lparr>ds_data = [[[Num 0]]], ds_time = [1], ds_items = [ItemInfo_of_name ''Item 1'']\<rparr>
   \<and> length (ds_items \<lparr>ds_data = [[[Num 0]]], ds_time = [1], ds_items = [ItemInfo_of_name ''Item 1'']\<rparr>)
        = length (ds_data \<lparr>ds_data = [[[Num 0]]], ds_time = [1], ds_items = [ItemInfo_of_name ''Item 1'']\<rparr>)
   \<and> NumberOfElements square_dfs = 1"
proof -
  let ?ds = "\<lparr>ds_data = [[[Num 0]]], ds_time = [1], ds_items = [ItemInfo_of_name ''Item 1'']\<rparr>"
  let ?r = "read example_world ''square.dfsu'' None None (Some [1])"
  have f: "dfsu_files example_world ''square.dfsu'' = Some square_dfs"
    by (simp add: example_world_def)
  have v: "fst ?r = Inr ?ds"
    by (simp add: read_defs example_world_def square_dfs_def upt_rec Let_def)
  then have r: "?r = (Inr ?ds, snd ?r)"
    by (metis prod.collapse)
  have n: "NumberOfElements square_dfs = 1"
    by (simp add: NumberOfElements_def square_dfs_def)
  show ?thesis
    using f v n C9_read_shape [OF r f] by simp
qed

subsection \<open>Writing and reading back\<close>








lemma roundtrip_NaN:
  "to_single nw dv = dv \<Longrightarrow> roundtrip nw dv NaN = NaN"
  by (cases dv) (simp_all add: roundtrip_def stored_def)

lemma roundtrip_delete_value:
  "nw x = Num y \<Longrightarrow> roundtrip nw (Num y) (Num x) = NaN"
  by (simp add: roundtrip_def stored_def to_single_def)

lemma roundtrip_Num:
  "nw x = Num y \<Longrightarrow> dv \<noteq> Num y \<Longrightarrow> roundtrip nw dv (Num x) = Num y"
  by (cases dv) (simp_all add: roundtrip_def stored_def to_single_def)





















end
